theory Spec2Isabelle
  imports Main "HOL-Library.Word"
begin

unbundle bit_operations_syntax

section \<open>Data model (main.go, lines 12-106)\<close>

type_synonym byte = "8 word"

text \<open>
  A Go \<open>float64\<close> is kept as its IEEE-754 binary64 bit pattern. The program never
  computes with a float: it stores it and hands it to \<open>encoding/json\<close>, which refuses
  NaN and the infinities (exponent field all ones).
\<close>

datatype float64 = Float64 (float64_bits: "64 word")

definition float64_exponent :: "float64 \<Rightarrow> nat" where
  "float64_exponent f = (unat (float64_bits f) div 2 ^ 52) mod 2 ^ 11"

definition float64_is_finite :: "float64 \<Rightarrow> bool" where
  "float64_is_finite f \<longleftrightarrow> float64_exponent f \<noteq> 2047"

text \<open>
  \<open>AttributeValue\<close> is a struct of six pointers and a byte slice: a \<open>nil\<close> pointer
  is \<open>None\<close>; the one-field structs \<open>ArrayValue\<close> and \<open>KvlistValue\<close> that two of
  them point to are built by \<open>Mk_ArrayValue\<close> and \<open>Mk_KvlistValue\<close>. A slice is a
  list. Where Go treats a \<open>nil\<close> slice and an empty one alike (the program appends
  to, measures and ranges over its slices, and \<open>omitempty\<close> leaves both out), both
  are \<open>[]\<close>; the three slice fields that are written to JSON even when empty (the two
  \<open>Values\<close> and the \<open>Attributes\<close> of \<open>Resource\<close>) are \<open>None\<close> when \<open>nil\<close>.
  The structs are finite trees: a Go value that reaches itself through its pointers is
  outside the model.
\<close>

datatype AttributeValue = AttributeValue
    (StringValue: "string option")
    (BoolValue: "bool option")
    (IntValue: "64 word option")
    (DoubleValue: "float64 option")
    (ArrayValue: "ArrayValue option")
    (KvlistValue: "KvlistValue option")
    (BytesValue: "byte list")
and ArrayValue = Mk_ArrayValue (Values: "AttributeValue list option")
and KvlistValue = Mk_KvlistValue (KvValues: "KeyValue list option")
and KeyValue = KeyValue (Key: string) (Value: AttributeValue)

record Resource =
  Resource_Attributes :: "KeyValue list option"

record Scope =
  Name :: string
  Version :: string

record LogRecord =
  TimeUnixNano :: "64 word"
  SeverityText :: string
  SeverityNumber :: int
  Body :: AttributeValue
  Attributes :: "KeyValue list"

record ScopeLogs =
  ScopeLogs_Scope :: Scope
  LogRecords :: "LogRecord list"

record ResourceLogs =
  ResourceLogs_Resource :: Resource
  ResourceLogs_ScopeLogs :: "ScopeLogs list"

text \<open>
  \<open>LogSender\<close>: the channel \<open>logQueue\<close> is the list of the records it holds, oldest
  first; \<open>make(chan LogRecord, 1000)\<close> fixes its capacity. The HTTP client is part of
  the transport, below.
\<close>

record LogSender =
  endpoint :: string
  batchSize :: int
  logQueue :: "LogRecord list"

definition logQueue_capacity :: nat where
  "logQueue_capacity = 1000"

definition NewLogSender :: "string \<Rightarrow> int \<Rightarrow> LogSender" where
  "NewLogSender ep bs = \<lparr>endpoint = ep, batchSize = bs, logQueue = []\<rparr>"

section \<open>Host values and their conversion (lines 150-167)\<close>

text \<open>
  The dynamic values an \<open>interface{}\<close> can hold, by dynamic type. A Go \<open>int\<close> is
  32 or 64 bits wide with the platform: \<open>GoInt\<close> carries its numeric value, and
  \<open>int64(val)\<close> stores that value into 64 bits. The types the type switch does not
  name are \<open>int32\<close>, the \<open>nil\<close> interface, and \<open>GoOther\<close>: a value of any other
  type, given by the name of its type and by what \<open>fmt\<close> prints for it under \<open>%v\<close>.
\<close>

datatype go_value =
    GoString string
  | GoInt int
  | GoInt64 "64 word"
  | GoFloat64 float64
  | GoBool bool
  | GoInt32 "32 word"
  | GoNil
  | GoOther (type_name: string) (default_text: string)

text \<open>\<open>fmt\<close>'s \<open>%v\<close> on an integer: decimal digits, with a minus sign.\<close>

fun decimal_nat :: "nat \<Rightarrow> string" where
  "decimal_nat n =
     (if n < 10 then [''0123456789'' ! n]
      else decimal_nat (n div 10) @ [''0123456789'' ! (n mod 10)])"

definition decimal :: "int \<Rightarrow> string" where
  "decimal i = (if i < 0 then CHR ''-'' # decimal_nat (nat (- i)) else decimal_nat (nat i))"

fun convertToAttributeValue :: "go_value \<Rightarrow> AttributeValue" where
  "convertToAttributeValue (GoString val) =
     AttributeValue (Some val) None None None None None []"
| "convertToAttributeValue (GoInt val) =
     (let intVal = (word_of_int val :: 64 word)
      in AttributeValue None None (Some intVal) None None None [])"
| "convertToAttributeValue (GoInt64 val) =
     AttributeValue None None (Some val) None None None []"
| "convertToAttributeValue (GoFloat64 val) =
     AttributeValue None None None (Some val) None None []"
| "convertToAttributeValue (GoBool val) =
     AttributeValue None (Some val) None None None None []"
| "convertToAttributeValue (GoInt32 val) =
     (let strVal = decimal (sint val)
      in AttributeValue (Some strVal) None None None None None [])"
| "convertToAttributeValue GoNil =
     (let strVal = ''<nil>''
      in AttributeValue (Some strVal) None None None None None [])"
| "convertToAttributeValue (GoOther ty txt) =
     (let strVal = txt
      in AttributeValue (Some strVal) None None None None None [])"

section \<open>The JSON encoding of the envelope (\<open>json.Marshal\<close>, line 250)\<close>

text \<open>
  \<open>encoding/json\<close> is a library: what is modelled is what it does with the struct
  declarations of lines 15-99, which fix the key of every field and whether an empty
  field is left out (\<open>omitempty\<close>). The result is the JSON value that the bytes of
  the request body denote: an object is the list of its members in the order they are
  written, a \<open>[]byte\<close> is the string of its base64 text (\<open>JBase64\<close>), and a string
  is written with every byte that is not part of a valid UTF-8 sequence replaced by
  U+FFFD.
\<close>

datatype json =
    JNull
  | JBool bool
  | JNumber int
  | JDouble float64
  | JString string
  | JBase64 "byte list"
  | JArray "json list"
  | JObject "(string \<times> json) list"

definition continuation_byte :: "nat \<Rightarrow> bool" where
  "continuation_byte b \<longleftrightarrow> 128 \<le> b \<and> b \<le> 191"

text \<open>
  The number of bytes of the UTF-8 sequence at the head of a byte string, 0 when there
  is none (\<open>utf8.DecodeRuneInString\<close> returning \<open>RuneError\<close> with size 1).
\<close>

fun rune_width :: "nat list \<Rightarrow> nat" where
  "rune_width [] = 0"
| "rune_width (b0 # bs) =
     (if b0 < 128 then 1
      else if 194 \<le> b0 \<and> b0 \<le> 223 then
        (case bs of
           b1 # _ \<Rightarrow> if continuation_byte b1 then 2 else 0
         | _ \<Rightarrow> 0)
      else if 224 \<le> b0 \<and> b0 \<le> 239 then
        (case bs of
           b1 # b2 # _ \<Rightarrow>
             if (if b0 = 224 then 160 else 128) \<le> b1
               \<and> b1 \<le> (if b0 = 237 then 159 else 191)
               \<and> continuation_byte b2
             then 3 else 0
         | _ \<Rightarrow> 0)
      else if 240 \<le> b0 \<and> b0 \<le> 244 then
        (case bs of
           b1 # b2 # b3 # _ \<Rightarrow>
             if (if b0 = 240 then 144 else 128) \<le> b1
               \<and> b1 \<le> (if b0 = 244 then 143 else 191)
               \<and> continuation_byte b2 \<and> continuation_byte b3
             then 4 else 0
         | _ \<Rightarrow> 0)
      else 0)"

definition replacement_char :: string where
  "replacement_char = map char_of [239, 191, 189 :: nat]"

text \<open>
  The string a JSON reader gets back from what \<open>json.Marshal\<close> writes for \<open>s\<close>.
  The first argument counts the bytes of the current sequence still to be copied.
\<close>

fun utf8_coerce_from :: "nat \<Rightarrow> string \<Rightarrow> string" where
  "utf8_coerce_from k [] = []"
| "utf8_coerce_from (Suc k) (c # cs) = c # utf8_coerce_from k cs"
| "utf8_coerce_from 0 (c # cs) =
     (case rune_width (map of_char (take 4 (c # cs))) of
        0 \<Rightarrow> replacement_char @ utf8_coerce_from 0 cs
      | Suc w \<Rightarrow> c # utf8_coerce_from w cs)"

definition utf8_coerce :: "string \<Rightarrow> string" where
  "utf8_coerce s = utf8_coerce_from 0 s"

definition marshal_string :: "string \<Rightarrow> json" where
  "marshal_string s = JString (utf8_coerce s)"

text \<open>A pointer field tagged \<open>omitempty\<close>: no member when the pointer is \<open>nil\<close>.\<close>

definition omitempty_ptr :: "string \<Rightarrow> json option \<Rightarrow> (string \<times> json) list" where
  "omitempty_ptr k v = (case v of None \<Rightarrow> [] | Some j \<Rightarrow> [(k, j)])"

text \<open>A slice field tagged \<open>omitempty\<close>: no member when its length is 0.\<close>

definition omitempty_slice :: "string \<Rightarrow> 'a list \<Rightarrow> ('a list \<Rightarrow> json) \<Rightarrow> (string \<times> json) list" where
  "omitempty_slice k xs enc = (if length xs = 0 then [] else [(k, enc xs)])"

text \<open>A string field tagged \<open>omitempty\<close>: no member when it is the empty string.\<close>

definition omitempty_string :: "string \<Rightarrow> string \<Rightarrow> (string \<times> json) list" where
  "omitempty_string k s = (if s = [] then [] else [(k, marshal_string s)])"

text \<open>A slice field without \<open>omitempty\<close>: \<open>null\<close> for a \<open>nil\<close> slice, an array otherwise.\<close>

definition marshal_slice :: "json list option \<Rightarrow> json" where
  "marshal_slice xs = (case xs of None \<Rightarrow> JNull | Some js \<Rightarrow> JArray js)"

primrec marshal_AttributeValue :: "AttributeValue \<Rightarrow> json"
  and marshal_ArrayValue :: "ArrayValue \<Rightarrow> json"
  and marshal_KvlistValue :: "KvlistValue \<Rightarrow> json"
  and marshal_KeyValue :: "KeyValue \<Rightarrow> json"
where
  "marshal_AttributeValue (AttributeValue s b i d a k y) =
     JObject
       (omitempty_ptr ''stringValue'' (map_option marshal_string s)
        @ omitempty_ptr ''boolValue'' (map_option JBool b)
        @ omitempty_ptr ''intValue'' (map_option (\<lambda>w. JNumber (sint w)) i)
        @ omitempty_ptr ''doubleValue'' (map_option JDouble d)
        @ omitempty_ptr ''arrayValue'' (map_option marshal_ArrayValue a)
        @ omitempty_ptr ''kvlistValue'' (map_option marshal_KvlistValue k)
        @ omitempty_slice ''bytesValue'' y JBase64)"
| "marshal_ArrayValue (Mk_ArrayValue vs) =
     JObject [(''values'', marshal_slice (map_option (map marshal_AttributeValue) vs))]"
| "marshal_KvlistValue (Mk_KvlistValue kvs) =
     JObject [(''values'', marshal_slice (map_option (map marshal_KeyValue) kvs))]"
| "marshal_KeyValue (KeyValue k v) =
     JObject [(''key'', marshal_string k), (''value'', marshal_AttributeValue v)]"

definition marshal_Resource :: "Resource \<Rightarrow> json" where
  "marshal_Resource r =
     JObject
       [(''attributes'', marshal_slice (map_option (map marshal_KeyValue) (Resource_Attributes r)))]"

definition marshal_Scope :: "Scope \<Rightarrow> json" where
  "marshal_Scope sc =
     JObject ([(''name'', marshal_string (Name sc))] @ omitempty_string ''version'' (Version sc))"

definition marshal_LogRecord :: "LogRecord \<Rightarrow> json" where
  "marshal_LogRecord r =
     JObject
       ([(''timeUnixNano'', JNumber (uint (TimeUnixNano r))),
         (''severityText'', marshal_string (SeverityText r)),
         (''severityNumber'', JNumber (SeverityNumber r)),
         (''body'', marshal_AttributeValue (Body r))]
        @ omitempty_slice ''attributes'' (Attributes r) (\<lambda>kvs. JArray (map marshal_KeyValue kvs)))"

definition marshal_ScopeLogs :: "ScopeLogs \<Rightarrow> json" where
  "marshal_ScopeLogs sl =
     JObject
       ([(''scope'', marshal_Scope (ScopeLogs_Scope sl))]
        @ omitempty_slice ''log_records'' (LogRecords sl) (\<lambda>rs. JArray (map marshal_LogRecord rs)))"

definition marshal_ResourceLogs :: "ResourceLogs \<Rightarrow> json" where
  "marshal_ResourceLogs rl =
     JObject
       ([(''resource'', marshal_Resource (ResourceLogs_Resource rl))]
        @ omitempty_slice ''scope_logs'' (ResourceLogs_ScopeLogs rl)
            (\<lambda>sls. JArray (map marshal_ScopeLogs sls)))"

text \<open>The payload of line 224: a map with the one key \<open>resourceLogs\<close>.\<close>

definition envelope :: "ResourceLogs list \<Rightarrow> json" where
  "envelope rls = JObject [(''resourceLogs'', JArray (map marshal_ResourceLogs rls))]"

text \<open>
  \<open>json.Marshal\<close> writes the value from left to right and stops at the first thing it
  refuses. With these types that is a \<open>float64\<close> that is NaN or infinite
  (\<open>UnsupportedValueError\<close>), or the opening of an object or array inside 10000 others
  (``exceeded max depth''). \<open>first_error d j\<close> is the first of them in \<open>j\<close>, written
  inside \<open>d\<close> objects and arrays.
\<close>

datatype marshal_error = UnsupportedValueError | Exceeded_max_depth

definition max_nesting_depth :: nat where
  "max_nesting_depth = 10000"

fun first_Some :: "'a option list \<Rightarrow> 'a option" where
  "first_Some [] = None"
| "first_Some (x # xs) = (case x of None \<Rightarrow> first_Some xs | Some e \<Rightarrow> Some e)"

fun first_error :: "nat \<Rightarrow> json \<Rightarrow> marshal_error option" where
  "first_error d (JDouble f) =
     (if float64_is_finite f then None else Some UnsupportedValueError)"
| "first_error d (JArray xs) =
     (if max_nesting_depth \<le> d then Some Exceeded_max_depth
      else first_Some (map (first_error (Suc d)) xs))"
| "first_error d (JObject ms) =
     (if max_nesting_depth \<le> d then Some Exceeded_max_depth
      else first_Some (map (\<lambda>m. first_error (Suc d) (snd m)) ms))"
| "first_error d j = None"

definition json_Marshal :: "ResourceLogs list \<Rightarrow> marshal_error + json" where
  "json_Marshal rls =
     (case first_error 0 (envelope rls) of
        None \<Rightarrow> Inr (envelope rls)
      | Some err \<Rightarrow> Inl err)"

section \<open>The world outside the program\<close>

text \<open>
  What \<open>net/http\<close>, the collector and the reader of the response do is not the
  program's: it is a parameter of every step of the worker. \<open>NewRequest_error\<close> is
  the error of \<open>http.NewRequest\<close> on a URL (none when it parses), \<open>client_Do\<close>
  the error or the response of the one synchronous call \<open>ls.client.Do(req)\<close>, and
  \<open>Decode_body\<close> the outcome of decoding the response body into a
  \<open>map[string]interface{}\<close>: an error, or the map as \<open>%+v\<close> prints it.
\<close>

record http_request =
  Method :: string
  URL :: string
  Content_Type :: string
  Request_Body :: json

record http_response =
  StatusCode :: int
  Response_Body :: "byte list"

record transport =
  NewRequest_error :: "string \<Rightarrow> string option"
  client_Do :: "http_request \<Rightarrow> string + http_response"
  Decode_body :: "byte list \<Rightarrow> string + string"

text \<open>One constructor for each call of the \<open>log\<close> package, with its arguments.\<close>

datatype log_entry =
    Log_queue_full_dropping_log_entry
  | Error_marshaling_log_batch marshal_error
  | Error_creating_request string
  | Error_sending_logs string
  | Error_response string
  | Failed_to_decode_error_response string
  | Received_status_code int
  | Logs_successfully_sent

section \<open>\<open>sendBatch\<close> (lines 191-281)\<close>

text \<open>
  \<open>sendBatch\<close> returns nothing. Its model returns what it did: the lines it logged,
  the requests it handed to the client, and the place where it returned, named after
  the failure taxonomy (\<open>RequestFailure\<close> is the return of line 259).
\<close>

datatype outcome = EncodeFailure | RequestFailure | TransportFailure | Rejected | Delivered

record sendBatch_result =
  logged :: "log_entry list"
  requested :: "http_request list"
  outcome :: outcome

definition stringPtr :: "string \<Rightarrow> string option" where
  "stringPtr s = Some s"

definition sendBatch_resource :: Resource where
  "sendBatch_resource =
     \<lparr>Resource_Attributes =
        Some
          [KeyValue ''service.name''
             (AttributeValue (stringPtr ''my-go-app'') None None None None None []),
           KeyValue ''service.version''
             (AttributeValue (stringPtr ''1.0.0'') None None None None None []),
           KeyValue ''telemetry.sdk.language''
             (AttributeValue (stringPtr ''go'') None None None None None [])]\<rparr>"

definition sendBatch_payload :: "LogRecord list \<Rightarrow> ResourceLogs list" where
  "sendBatch_payload batch =
     (let resource = sendBatch_resource;
          scope = \<lparr>Name = ''custom-logger'', Version = ''1.0''\<rparr>;
          scopeLogs = [\<lparr>ScopeLogs_Scope = scope, LogRecords = batch\<rparr>]
      in [\<lparr>ResourceLogs_Resource = resource, ResourceLogs_ScopeLogs = scopeLogs\<rparr>])"

text \<open>The request of lines 256-261.\<close>

definition sendBatch_request :: "LogSender \<Rightarrow> json \<Rightarrow> http_request" where
  "sendBatch_request ls jsonData =
     \<lparr>Method = ''POST'', URL = endpoint ls @ ''/v1/logs'',
      Content_Type = ''application/json'', Request_Body = jsonData\<rparr>"

definition sendBatch :: "transport \<Rightarrow> LogSender \<Rightarrow> LogRecord list \<Rightarrow> sendBatch_result" where
  "sendBatch tr ls batch =
     (case json_Marshal (sendBatch_payload batch) of
        Inl err \<Rightarrow>
          \<lparr>logged = [Error_marshaling_log_batch err], requested = [], outcome = EncodeFailure\<rparr>
      | Inr jsonData \<Rightarrow>
          (case NewRequest_error tr (endpoint ls @ ''/v1/logs'') of
             Some err \<Rightarrow>
               \<lparr>logged = [Error_creating_request err], requested = [],
                outcome = RequestFailure\<rparr>
           | None \<Rightarrow>
               (let req = sendBatch_request ls jsonData
                in case client_Do tr req of
                     Inl err \<Rightarrow>
                       \<lparr>logged = [Error_sending_logs err], requested = [req],
                        outcome = TransportFailure\<rparr>
                   | Inr resp \<Rightarrow>
                       if StatusCode resp \<ge> 400 then
                         \<lparr>logged =
                            [case Decode_body tr (Response_Body resp) of
                               Inr responseBody \<Rightarrow> Error_response responseBody
                             | Inl err \<Rightarrow> Failed_to_decode_error_response err,
                             Received_status_code (StatusCode resp)],
                          requested = [req], outcome = Rejected\<rparr>
                       else
                         \<lparr>logged = [Logs_successfully_sent], requested = [req],
                          outcome = Delivered\<rparr>)))"

section \<open>The running program: \<open>Log\<close> and \<open>processQueue\<close> (lines 119-189)\<close>

text \<open>
  The state of a started \<open>LogSender\<close>: the sender with its channel, the local
  \<open>batch\<close> of the one \<open>processQueue\<close> goroutine, and what the program has done so
  far: the lines logged, the requests handed to the HTTP client, and every call of
  \<open>sendBatch\<close> with the place it was called from.
\<close>

datatype call_site = Batch_full | Ticker

record system =
  sender :: LogSender
  batch :: "LogRecord list"
  log_output :: "log_entry list"
  requests :: "http_request list"
  sendBatch_calls :: "(call_site \<times> LogRecord list) list"

definition Start :: "LogSender \<Rightarrow> system" where
  "Start ls = \<lparr>sender = ls, batch = [], log_output = [], requests = [], sendBatch_calls = []\<rparr>"

text \<open>\<open>uint64(x)\<close> of an \<open>int64\<close>: the same 64 bits, read unsigned.\<close>

definition uint64_of_int64 :: "64 word \<Rightarrow> 64 word" where
  "uint64_of_int64 x = word_of_int (sint x)"

text \<open>
  The record \<open>Log\<close> builds (lines 124-141). \<open>now\<close> is what
  \<open>time.Now().UnixNano()\<close> returns at the call. \<open>attrs\<close> is \<open>None\<close> for a \<open>nil\<close>
  map, and otherwise the entries of the map in the order \<open>range\<close> yields them, which
  Go leaves open.
\<close>

definition Log_entry ::
  "64 word \<Rightarrow> string \<Rightarrow> int \<Rightarrow> string \<Rightarrow> (string \<times> go_value) list option \<Rightarrow> LogRecord" where
  "Log_entry now severityText severityNumber message attrs =
     (let body = AttributeValue (Some message) None None None None None [];
          entry = \<lparr>TimeUnixNano = uint64_of_int64 now,
                   SeverityText = severityText,
                   SeverityNumber = severityNumber,
                   Body = body,
                   Attributes = []\<rparr>
      in case attrs of
           None \<Rightarrow> entry
         | Some kvs \<Rightarrow>
             entry\<lparr>Attributes := map (\<lambda>(k, v). KeyValue k (convertToAttributeValue v)) kvs\<rparr>)"

text \<open>
  The \<open>select\<close> of line 143: the send is taken when the channel has room, the
  \<open>default\<close> otherwise. \<open>Log\<close> has no result.
\<close>

definition Log ::
  "64 word \<Rightarrow> string \<Rightarrow> int \<Rightarrow> string \<Rightarrow> (string \<times> go_value) list option \<Rightarrow> system \<Rightarrow> system" where
  "Log now severityText severityNumber message attrs s =
     (let entry = Log_entry now severityText severityNumber message attrs;
          ls = sender s
      in if length (logQueue ls) < logQueue_capacity
         then s\<lparr>sender := ls\<lparr>logQueue := logQueue ls @ [entry]\<rparr>\<rparr>
         else s\<lparr>log_output := log_output s @ [Log_queue_full_dropping_log_entry]\<rparr>)"

text \<open>\<open>ls.sendBatch(batch)\<close> followed by \<open>batch = nil\<close>, at either place.\<close>

definition flush :: "transport \<Rightarrow> call_site \<Rightarrow> system \<Rightarrow> system" where
  "flush tr site s =
     (let r = sendBatch tr (sender s) (batch s)
      in s\<lparr>log_output := log_output s @ logged r,
           requests := requests s @ requested r,
           sendBatch_calls := sendBatch_calls s @ [(site, batch s)],
           batch := []\<rparr>)"

text \<open>
  One turn of the \<open>for\<close> loop of \<open>processQueue\<close>, by the case its \<open>select\<close> takes.
  The receive can only be taken when the channel holds a record (\<open>None\<close> otherwise);
  each turn has its own variable \<open>entry\<close>, so the pointers in \<open>batch\<close> never alias.
\<close>

definition processQueue_receive :: "transport \<Rightarrow> system \<Rightarrow> system option" where
  "processQueue_receive tr s =
     (case logQueue (sender s) of
        [] \<Rightarrow> None
      | entry # rest \<Rightarrow>
          (let s1 = s\<lparr>sender := (sender s)\<lparr>logQueue := rest\<rparr>, batch := batch s @ [entry]\<rparr>
           in Some (if int (length (batch s1)) \<ge> batchSize (sender s1)
                    then flush tr Batch_full s1
                    else s1)))"

definition processQueue_tick :: "transport \<Rightarrow> system \<Rightarrow> system" where
  "processQueue_tick tr s = (if length (batch s) > 0 then flush tr Ticker s else s)"

text \<open>
  A run of the program is the sequence of what happens, in the order it happens: a
  producer calls \<open>Log\<close>, or the worker takes one of the two cases of its \<open>select\<close>,
  the world answering as the transport of that turn says.
\<close>

datatype event =
    is_Call_Log: Call_Log "64 word" string int string "(string \<times> go_value) list option"
  | is_Receive: Receive transport
  | is_Tick: Tick transport

fun step :: "event \<Rightarrow> system \<Rightarrow> system option" where
  "step (Call_Log now severityText severityNumber message attrs) s =
     Some (Log now severityText severityNumber message attrs s)"
| "step (Receive tr) s = processQueue_receive tr s"
| "step (Tick tr) s = Some (processQueue_tick tr s)"

fun run :: "event list \<Rightarrow> system \<Rightarrow> system option" where
  "run [] s = Some s"
| "run (e # es) s = (case step e s of None \<Rightarrow> None | Some s' \<Rightarrow> run es s')"

section \<open>Decoding the envelope\<close>

text \<open>
  Modelled from the spec: the repository only encodes; it has no decoder. ``Decoding
  it back'' is read as what \<open>json.Unmarshal\<close> into the structs of lines 15-99 does
  with the members that \<open>json.Marshal\<close> writes: a scalar is read from the JSON value
  of its kind and from no other (a number must fit the field's integer type).
\<close>

definition unmarshal_string :: "json \<Rightarrow> string option" where
  "unmarshal_string j = (case j of JString s \<Rightarrow> Some s | _ \<Rightarrow> None)"

definition unmarshal_bool :: "json \<Rightarrow> bool option" where
  "unmarshal_bool j = (case j of JBool b \<Rightarrow> Some b | _ \<Rightarrow> None)"

definition unmarshal_int64 :: "json \<Rightarrow> 64 word option" where
  "unmarshal_int64 j =
     (case j of
        JNumber n \<Rightarrow> if - (2 ^ 63) \<le> n \<and> n < 2 ^ 63 then Some (word_of_int n) else None
      | _ \<Rightarrow> None)"

definition unmarshal_uint64 :: "json \<Rightarrow> 64 word option" where
  "unmarshal_uint64 j =
     (case j of
        JNumber n \<Rightarrow> if 0 \<le> n \<and> n < 2 ^ 64 then Some (word_of_int n) else None
      | _ \<Rightarrow> None)"

definition unmarshal_int :: "json \<Rightarrow> int option" where
  "unmarshal_int j = (case j of JNumber n \<Rightarrow> Some n | _ \<Rightarrow> None)"

definition unmarshal_float64 :: "json \<Rightarrow> float64 option" where
  "unmarshal_float64 j = (case j of JDouble f \<Rightarrow> Some f | _ \<Rightarrow> None)"

definition unmarshal_bytes :: "json \<Rightarrow> byte list option" where
  "unmarshal_bytes j = (case j of JBase64 bs \<Rightarrow> Some bs | _ \<Rightarrow> None)"

text \<open>
  Modelled from the spec: the decoders of the four value structs. Each field is read
  from the member that carries its key, and a field whose member is absent keeps its
  zero value (an unset variant, a \<open>nil\<close> slice, the empty string). For a slice,
  \<open>null\<close> gives \<open>nil\<close> and an array a slice of its elements.
\<close>

function (sequential) unmarshal_AttributeValue :: "json \<Rightarrow> AttributeValue option"
  and unmarshal_ArrayValue :: "json \<Rightarrow> ArrayValue option"
  and unmarshal_KvlistValue :: "json \<Rightarrow> KvlistValue option"
  and unmarshal_KeyValue :: "json \<Rightarrow> KeyValue option"
where
  "unmarshal_AttributeValue (JObject ms) =
     Option.bind (case map_of ms ''stringValue'' of
                    None \<Rightarrow> Some None | Some x \<Rightarrow> map_option Some (unmarshal_string x))
     (\<lambda>s. Option.bind (case map_of ms ''boolValue'' of
                    None \<Rightarrow> Some None | Some x \<Rightarrow> map_option Some (unmarshal_bool x))
     (\<lambda>b. Option.bind (case map_of ms ''intValue'' of
                    None \<Rightarrow> Some None | Some x \<Rightarrow> map_option Some (unmarshal_int64 x))
     (\<lambda>i. Option.bind (case map_of ms ''doubleValue'' of
                    None \<Rightarrow> Some None | Some x \<Rightarrow> map_option Some (unmarshal_float64 x))
     (\<lambda>d. Option.bind (case map_of ms ''arrayValue'' of
                    None \<Rightarrow> Some None | Some x \<Rightarrow> map_option Some (unmarshal_ArrayValue x))
     (\<lambda>a. Option.bind (case map_of ms ''kvlistValue'' of
                    None \<Rightarrow> Some None | Some x \<Rightarrow> map_option Some (unmarshal_KvlistValue x))
     (\<lambda>k. Option.bind (case map_of ms ''bytesValue'' of
                    None \<Rightarrow> Some [] | Some x \<Rightarrow> unmarshal_bytes x)
     (\<lambda>y. Some (AttributeValue s b i d a k y))))))))"
| "unmarshal_AttributeValue _ = None"
| "unmarshal_ArrayValue (JObject ms) =
     (case map_of ms ''values'' of
        None \<Rightarrow> Some (Mk_ArrayValue None)
      | Some JNull \<Rightarrow> Some (Mk_ArrayValue None)
      | Some (JArray xs) \<Rightarrow>
          map_option (\<lambda>vs. Mk_ArrayValue (Some vs)) (those (map unmarshal_AttributeValue xs))
      | Some _ \<Rightarrow> None)"
| "unmarshal_ArrayValue _ = None"
| "unmarshal_KvlistValue (JObject ms) =
     (case map_of ms ''values'' of
        None \<Rightarrow> Some (Mk_KvlistValue None)
      | Some JNull \<Rightarrow> Some (Mk_KvlistValue None)
      | Some (JArray xs) \<Rightarrow>
          map_option (\<lambda>kvs. Mk_KvlistValue (Some kvs)) (those (map unmarshal_KeyValue xs))
      | Some _ \<Rightarrow> None)"
| "unmarshal_KvlistValue _ = None"
| "unmarshal_KeyValue (JObject ms) =
     Option.bind (case map_of ms ''key'' of
                    None \<Rightarrow> Some [] | Some x \<Rightarrow> unmarshal_string x)
     (\<lambda>k. Option.bind (case map_of ms ''value'' of
                    None \<Rightarrow> Some (AttributeValue None None None None None None [])
                  | Some x \<Rightarrow> unmarshal_AttributeValue x)
     (\<lambda>v. Some (KeyValue k v)))"
| "unmarshal_KeyValue _ = None"
  by pat_completeness auto
termination
proof -
  have member: "size j < Suc (size_list (size_prod (\<lambda>_. 0) size) ms)"
    if "map_of ms k = Some j" for ms :: "(string \<times> json) list" and k j
    using that by (induction ms) (auto split: if_splits)
  have element: "size x < Suc (size_list size xs)"
    if "x \<in> set xs" for x :: json and xs
    using that by (induction xs) auto
  show ?thesis
    apply (relation "measure (case_sum (case_sum size size) (case_sum size size))")
         apply (auto dest!: member element sym [of "Some _" "map_of _ _"])
    done
qed

text \<open>
  Modelled from the spec: the decoders of the envelope structs, from the member of an
  object (or the zero value when there is none) and from the elements of an array.
  \<open>unmarshal_slice\<close> reads a slice field that keeps \<open>nil\<close> apart from empty, from
  \<open>null\<close> or an array.
\<close>

definition member_or :: "'a \<Rightarrow> (json \<Rightarrow> 'a option) \<Rightarrow> (string \<times> json) list \<Rightarrow> string \<Rightarrow> 'a option" where
  "member_or zero dec ms k = (case map_of ms k of None \<Rightarrow> Some zero | Some x \<Rightarrow> dec x)"

definition unmarshal_list :: "(json \<Rightarrow> 'a option) \<Rightarrow> json \<Rightarrow> 'a list option" where
  "unmarshal_list dec j = (case j of JArray xs \<Rightarrow> those (map dec xs) | _ \<Rightarrow> None)"

definition unmarshal_slice :: "(json \<Rightarrow> 'a option) \<Rightarrow> json \<Rightarrow> 'a list option option" where
  "unmarshal_slice dec j =
     (case j of
        JNull \<Rightarrow> Some None
      | JArray xs \<Rightarrow> map_option Some (those (map dec xs))
      | _ \<Rightarrow> None)"

definition AttributeValue_zero :: AttributeValue where
  "AttributeValue_zero = AttributeValue None None None None None None []"

definition unmarshal_LogRecord :: "json \<Rightarrow> LogRecord option" where
  "unmarshal_LogRecord j =
     (case j of
        JObject ms \<Rightarrow>
          Option.bind (member_or 0 unmarshal_uint64 ms ''timeUnixNano'')
          (\<lambda>t. Option.bind (member_or [] unmarshal_string ms ''severityText'')
          (\<lambda>st. Option.bind (member_or 0 unmarshal_int ms ''severityNumber'')
          (\<lambda>sn. Option.bind (member_or AttributeValue_zero unmarshal_AttributeValue ms ''body'')
          (\<lambda>b. Option.bind (member_or [] (unmarshal_list unmarshal_KeyValue) ms ''attributes'')
          (\<lambda>as. Some \<lparr>TimeUnixNano = t, SeverityText = st, SeverityNumber = sn,
                        Body = b, Attributes = as\<rparr>)))))
      | _ \<Rightarrow> None)"

definition unmarshal_Scope :: "json \<Rightarrow> Scope option" where
  "unmarshal_Scope j =
     (case j of
        JObject ms \<Rightarrow>
          Option.bind (member_or [] unmarshal_string ms ''name'')
          (\<lambda>n. Option.bind (member_or [] unmarshal_string ms ''version'')
          (\<lambda>v. Some \<lparr>Name = n, Version = v\<rparr>))
      | _ \<Rightarrow> None)"

definition unmarshal_Resource :: "json \<Rightarrow> Resource option" where
  "unmarshal_Resource j =
     (case j of
        JObject ms \<Rightarrow>
          map_option (\<lambda>as. \<lparr>Resource_Attributes = as\<rparr>)
            (member_or None (unmarshal_slice unmarshal_KeyValue) ms ''attributes'')
      | _ \<Rightarrow> None)"

definition unmarshal_ScopeLogs :: "json \<Rightarrow> ScopeLogs option" where
  "unmarshal_ScopeLogs j =
     (case j of
        JObject ms \<Rightarrow>
          Option.bind (member_or \<lparr>Name = [], Version = []\<rparr> unmarshal_Scope ms ''scope'')
          (\<lambda>sc. Option.bind (member_or [] (unmarshal_list unmarshal_LogRecord) ms ''log_records'')
          (\<lambda>rs. Some \<lparr>ScopeLogs_Scope = sc, LogRecords = rs\<rparr>))
      | _ \<Rightarrow> None)"

definition unmarshal_ResourceLogs :: "json \<Rightarrow> ResourceLogs option" where
  "unmarshal_ResourceLogs j =
     (case j of
        JObject ms \<Rightarrow>
          Option.bind (member_or \<lparr>Resource_Attributes = None\<rparr> unmarshal_Resource ms ''resource'')
          (\<lambda>r. Option.bind (member_or [] (unmarshal_list unmarshal_ScopeLogs) ms ''scope_logs'')
          (\<lambda>sls. Some \<lparr>ResourceLogs_Resource = r, ResourceLogs_ScopeLogs = sls\<rparr>))
      | _ \<Rightarrow> None)"

definition unmarshal_payload :: "json \<Rightarrow> ResourceLogs list option" where
  "unmarshal_payload j =
     (case j of
        JObject ms \<Rightarrow> member_or [] (unmarshal_list unmarshal_ResourceLogs) ms ''resourceLogs''
      | _ \<Rightarrow> None)"

text \<open>
  Modelled from the spec: the records of a decoded envelope, in the order they stand in
  it.
\<close>

definition decoded_records :: "json \<Rightarrow> LogRecord list option" where
  "decoded_records j =
     map_option (\<lambda>rls. concat (map LogRecords (concat (map ResourceLogs_ScopeLogs rls))))
       (unmarshal_payload j)"

text \<open>
  Modelled from the spec: the round trip of a batch, encoded as \<open>sendBatch\<close> encodes
  it and decoded from the body.
\<close>

definition round_trip :: "LogRecord list \<Rightarrow> LogRecord list option" where
  "round_trip records =
     (case json_Marshal (sendBatch_payload records) of
        Inl err \<Rightarrow> None
      | Inr body \<Rightarrow> decoded_records body)"

section \<open>Notions used in the statements\<close>

text \<open>
  What \<open>json.Marshal\<close> refuses, said of the values themselves: a value is
  \<open>supported\<close> when every \<open>float64\<close> in it is finite.
\<close>

fun supported_AttributeValue :: "AttributeValue \<Rightarrow> bool"
  and supported_ArrayValue :: "ArrayValue \<Rightarrow> bool"
  and supported_KvlistValue :: "KvlistValue \<Rightarrow> bool"
  and supported_KeyValue :: "KeyValue \<Rightarrow> bool"
where
  "supported_AttributeValue (AttributeValue s b i d a k y) \<longleftrightarrow>
     (case d of None \<Rightarrow> True | Some f \<Rightarrow> float64_is_finite f)
     \<and> (case a of None \<Rightarrow> True | Some av \<Rightarrow> supported_ArrayValue av)
     \<and> (case k of None \<Rightarrow> True | Some kv \<Rightarrow> supported_KvlistValue kv)"
| "supported_ArrayValue (Mk_ArrayValue vs) \<longleftrightarrow>
     (case vs of None \<Rightarrow> True | Some xs \<Rightarrow> list_all supported_AttributeValue xs)"
| "supported_KvlistValue (Mk_KvlistValue kvs) \<longleftrightarrow>
     (case kvs of None \<Rightarrow> True | Some xs \<Rightarrow> list_all supported_KeyValue xs)"
| "supported_KeyValue (KeyValue k v) \<longleftrightarrow> supported_AttributeValue v"

definition supported_LogRecord :: "LogRecord \<Rightarrow> bool" where
  "supported_LogRecord r \<longleftrightarrow>
     supported_AttributeValue (Body r) \<and> list_all supported_KeyValue (Attributes r)"

text \<open>
  The same of a JSON value, and how deep its objects and arrays are nested: a scalar
  has depth 0, an object or array one more than the deepest of its members.
\<close>

fun finite_doubles :: "json \<Rightarrow> bool" where
  "finite_doubles (JDouble f) \<longleftrightarrow> float64_is_finite f"
| "finite_doubles (JArray xs) \<longleftrightarrow> list_all finite_doubles xs"
| "finite_doubles (JObject ms) \<longleftrightarrow> list_all (\<lambda>m. finite_doubles (snd m)) ms"
| "finite_doubles j \<longleftrightarrow> True"

fun json_depth :: "json \<Rightarrow> nat" where
  "json_depth (JArray xs) = Suc (foldr max (map json_depth xs) 0)"
| "json_depth (JObject ms) = Suc (foldr max (map (\<lambda>m. json_depth (snd m)) ms) 0)"
| "json_depth j = 0"

text \<open>
  A record is \<open>shallow\<close> when the envelope of a batch that holds it stays within the
  nesting limit of the encoder; in the envelope a record is written inside six objects
  and arrays.
\<close>

definition shallow_LogRecord :: "LogRecord \<Rightarrow> bool" where
  "shallow_LogRecord r \<longleftrightarrow> 6 + json_depth (marshal_LogRecord r) \<le> max_nesting_depth"

text \<open>
  Well-formed UTF-8, as RFC 3629 gives it: a sequence of one byte 00-7F; or of C2-DF
  and a tail byte (80-BF); or of three bytes, E0 A0-BF tail, E1-EC tail tail, ED 80-9F
  tail, EE-EF tail tail; or of four bytes, F0 90-BF tail tail, F1-F3 tail tail tail,
  F4 80-8F tail tail.
\<close>

definition UTF8_tail :: "nat \<Rightarrow> bool" where
  "UTF8_tail b \<longleftrightarrow> 128 \<le> b \<and> b \<le> 191"

fun well_formed_utf8 :: "nat list \<Rightarrow> bool" where
  "well_formed_utf8 [] \<longleftrightarrow> True"
| "well_formed_utf8 (b0 # bs) \<longleftrightarrow>
     (if b0 \<le> 127 then well_formed_utf8 bs
      else if 194 \<le> b0 \<and> b0 \<le> 223 then
        (case bs of
           b1 # rest \<Rightarrow> UTF8_tail b1 \<and> well_formed_utf8 rest
         | _ \<Rightarrow> False)
      else if 224 \<le> b0 \<and> b0 \<le> 239 then
        (case bs of
           b1 # b2 # rest \<Rightarrow>
             (if b0 = 224 then 160 \<le> b1 \<and> b1 \<le> 191
              else if b0 = 237 then 128 \<le> b1 \<and> b1 \<le> 159
              else UTF8_tail b1)
             \<and> UTF8_tail b2 \<and> well_formed_utf8 rest
         | _ \<Rightarrow> False)
      else if 240 \<le> b0 \<and> b0 \<le> 244 then
        (case bs of
           b1 # b2 # b3 # rest \<Rightarrow>
             (if b0 = 240 then 144 \<le> b1 \<and> b1 \<le> 191
              else if b0 = 244 then 128 \<le> b1 \<and> b1 \<le> 143
              else UTF8_tail b1)
             \<and> UTF8_tail b2 \<and> UTF8_tail b3 \<and> well_formed_utf8 rest
         | _ \<Rightarrow> False)
      else False)"

definition valid_utf8 :: "string \<Rightarrow> bool" where
  "valid_utf8 s \<longleftrightarrow> well_formed_utf8 (map of_char s)"

text \<open>The \<open>text_\<close> predicates say of every string in a value that it is valid UTF-8.\<close>

fun text_AttributeValue :: "AttributeValue \<Rightarrow> bool"
  and text_ArrayValue :: "ArrayValue \<Rightarrow> bool"
  and text_KvlistValue :: "KvlistValue \<Rightarrow> bool"
  and text_KeyValue :: "KeyValue \<Rightarrow> bool"
where
  "text_AttributeValue (AttributeValue s b i d a k y) \<longleftrightarrow>
     (case s of None \<Rightarrow> True | Some str \<Rightarrow> valid_utf8 str)
     \<and> (case a of None \<Rightarrow> True | Some av \<Rightarrow> text_ArrayValue av)
     \<and> (case k of None \<Rightarrow> True | Some kv \<Rightarrow> text_KvlistValue kv)"
| "text_ArrayValue (Mk_ArrayValue vs) \<longleftrightarrow>
     (case vs of None \<Rightarrow> True | Some xs \<Rightarrow> list_all text_AttributeValue xs)"
| "text_KvlistValue (Mk_KvlistValue kvs) \<longleftrightarrow>
     (case kvs of None \<Rightarrow> True | Some xs \<Rightarrow> list_all text_KeyValue xs)"
| "text_KeyValue (KeyValue k v) \<longleftrightarrow> valid_utf8 k \<and> text_AttributeValue v"

definition text_LogRecord :: "LogRecord \<Rightarrow> bool" where
  "text_LogRecord r \<longleftrightarrow>
     valid_utf8 (SeverityText r) \<and> text_AttributeValue (Body r)
     \<and> list_all text_KeyValue (Attributes r)"

text \<open>The number of variants of an \<open>AttributeValue\<close> that are set.\<close>

definition populated :: "AttributeValue \<Rightarrow> nat" where
  "populated v =
     (if StringValue v = None then 0 else 1)
     + (if BoolValue v = None then 0 else 1)
     + (if IntValue v = None then 0 else 1)
     + (if DoubleValue v = None then 0 else 1)
     + (if ArrayValue v = None then 0 else 1)
     + (if KvlistValue v = None then 0 else 1)
     + (if BytesValue v = [] then 0 else 1)"

definition one_variant_record :: "LogRecord \<Rightarrow> bool" where
  "one_variant_record r \<longleftrightarrow>
     populated (Body r) = 1 \<and> list_all (\<lambda>kv. populated (Value kv) = 1) (Attributes r)"

text \<open>Every record the program holds or has handed to \<open>sendBatch\<close>.\<close>

definition one_variant_state :: "system \<Rightarrow> bool" where
  "one_variant_state s \<longleftrightarrow>
     list_all one_variant_record (logQueue (sender s))
     \<and> list_all one_variant_record (batch s)
     \<and> list_all (\<lambda>c. list_all one_variant_record (snd c)) (sendBatch_calls s)"

definition notes_decode_failure :: "log_entry \<Rightarrow> bool" where
  "notes_decode_failure e =
     (case e of Failed_to_decode_error_response err \<Rightarrow> True | _ \<Rightarrow> False)"

text \<open>The members of a JSON object and their keys, in the order they are written.\<close>

definition members :: "json \<Rightarrow> (string \<times> json) list" where
  "members j = (case j of JObject ms \<Rightarrow> ms | _ \<Rightarrow> [])"

definition member_names :: "json \<Rightarrow> string list" where
  "member_names j = map fst (members j)"

text \<open>
  Of a run: the records its calls of \<open>Log\<close> built, in the order of the calls, and how
  often the worker took a record from the channel and how often it took a tick.
\<close>

fun enqueued :: "event list \<Rightarrow> LogRecord list" where
  "enqueued [] = []"
| "enqueued (Call_Log now severityText severityNumber message attrs # es) =
     Log_entry now severityText severityNumber message attrs # enqueued es"
| "enqueued (Receive tr # es) = enqueued es"
| "enqueued (Tick tr # es) = enqueued es"

definition receives :: "event list \<Rightarrow> nat" where
  "receives es = length (filter is_Receive es)"

text \<open>The world as it answered at each receive of a run, in the order of the receives.\<close>

fun receive_transports :: "event list \<Rightarrow> transport list" where
  "receive_transports [] = []"
| "receive_transports (Receive tr # es) = tr # receive_transports es"
| "receive_transports (e # es) = receive_transports es"

definition ticks :: "event list \<Rightarrow> nat" where
  "ticks es = length (filter is_Tick es)"

text \<open>
  The calls of \<open>sendBatch\<close> so far, each as the place it was made from and the
  timestamps of the records it was given.
\<close>

definition flushes :: "system \<Rightarrow> (call_site \<times> 64 word list) list" where
  "flushes s = map (\<lambda>c. (fst c, map TimeUnixNano (snd c))) (sendBatch_calls s)"

text \<open>
  The state of a sender with batch size 10 into which \<open>rs\<close> (fewer than 20 records)
  were enqueued and whose worker took no tick and as many records as \<open>trs\<close> is long,
  the world answering the \<open>i\<close>-th receive as \<open>trs ! (i - 1)\<close>: the first ten records
  were given to \<open>sendBatch\<close> at the tenth receive.
\<close>

definition assembled :: "string \<Rightarrow> LogRecord list \<Rightarrow> transport list \<Rightarrow> system" where
  "assembled ep rs trs =
     (if length trs < 10
      then \<lparr>sender = \<lparr>endpoint = ep, batchSize = 10, logQueue = drop (length trs) rs\<rparr>,
            batch = take (length trs) rs,
            log_output = [], requests = [], sendBatch_calls = []\<rparr>
      else \<lparr>sender = \<lparr>endpoint = ep, batchSize = 10, logQueue = drop (length trs) rs\<rparr>,
            batch = drop 10 (take (length trs) rs),
            log_output = logged (sendBatch (trs ! 9) (NewLogSender ep 10) (take 10 rs)),
            requests = requested (sendBatch (trs ! 9) (NewLogSender ep 10) (take 10 rs)),
            sendBatch_calls = [(Batch_full, take 10 rs)]\<rparr>)"

section \<open>Example inputs\<close>

definition example_sender :: LogSender where
  "example_sender = NewLogSender ''http://localhost:4318'' 10"

definition example_record :: LogRecord where
  "example_record = Log_entry 1700000000000000000 ''INFO'' 9 ''Application started'' None"

text \<open>
  One of the errors of \<open>http.NewRequest\<close>: \<open>net/url\<close> refuses a URL that holds an
  ASCII control character (a byte below 0x20, or 0x7F). The error is given by the text
  of its cause.
\<close>

definition control_character_error :: "string \<Rightarrow> string option" where
  "control_character_error url =
     (if list_ex (\<lambda>c. (of_char c :: nat) < 32 \<or> (of_char c :: nat) = 127) url
      then Some ''net/url: invalid control character in URL''
      else None)"

text \<open>
  A collector that answers every request with the given status and an empty body, which
  does not decode.
\<close>

definition collector_answering :: "int \<Rightarrow> transport" where
  "collector_answering status =
     \<lparr>NewRequest_error = control_character_error,
      client_Do = (\<lambda>req. Inr \<lparr>StatusCode = status, Response_Body = []\<rparr>),
      Decode_body = (\<lambda>body. Inl ''EOF'')\<rparr>"

text \<open>A started sender whose channel holds 1000 records.\<close>

definition full_queue_state :: system where
  "full_queue_state =
     (Start example_sender)\<lparr>sender := example_sender\<lparr>logQueue := replicate 1000 example_record\<rparr>\<rparr>"

text \<open>The \<open>i\<close>-th of a series of calls of \<open>Log\<close>, made at clock reading \<open>i\<close>.\<close>

definition example_call :: "nat \<Rightarrow> event" where
  "example_call i = Call_Log (of_nat i) ''INFO'' 9 ''Application started'' None"

text \<open>Fifteen calls of \<open>Log\<close>, then the worker receiving the fifteen records.\<close>

definition fifteen_calls :: "event list" where
  "fifteen_calls =
     map example_call [1, 2, 3, 4, 5, 6, 7, 8, 9, 10, 11, 12, 13, 14, 15]
     @ replicate 15 (Receive (collector_answering 200))"

text \<open>
  Fifteen calls of \<open>Log\<close>, of which the worker has received three when it takes a
  tick, and the rest of the run.
\<close>

definition racing_calls :: "event list" where
  "racing_calls =
     map example_call [1, 2, 3, 4, 5, 6, 7, 8, 9, 10, 11, 12, 13, 14, 15]
     @ replicate 3 (Receive (collector_answering 200))
     @ [Tick (collector_answering 200)]
     @ replicate 12 (Receive (collector_answering 200))
     @ [Tick (collector_answering 200)]"

text \<open>
  Five calls of \<open>Log\<close>, of which the worker has received three when it takes a tick,
  then the other two and the next tick.
\<close>

definition five_racing_calls :: "event list" where
  "five_racing_calls =
     map example_call [1, 2, 3, 4, 5]
     @ replicate 3 (Receive (collector_answering 200))
     @ [Tick (collector_answering 200)]
     @ replicate 2 (Receive (collector_answering 200))
     @ [Tick (collector_answering 200)]"

text \<open>A sender whose endpoint was read with the newline that ended its line.\<close>

definition newline_sender :: LogSender where
  "newline_sender = NewLogSender (''http://localhost:4318'' @ [CHR 0x0A]) 10"

text \<open>Three calls of \<open>Log\<close>, then the worker receiving the three records.\<close>

definition three_calls :: "event list" where
  "three_calls =
     map example_call [1, 2, 3] @ replicate 3 (Receive (collector_answering 200))"

text \<open>A record with a NaN attribute, and one whose message is the single byte 0xFF.\<close>

definition nan_record :: LogRecord where
  "nan_record =
     Log_entry 1 ''WARN'' 13 ''Retry attempt''
       (Some [(''timeout'', GoFloat64 (Float64 0x7FF8000000000000))])"

definition invalid_text_record :: LogRecord where
  "invalid_text_record = Log_entry 1 ''INFO'' 9 [char_of (255 :: nat)] None"

text \<open>
  A value that holds a one-element array that holds a one-element array, and so on,
  \<open>n\<close> arrays in all around the integer 1, and a record with such a body.
\<close>

fun nested_arrays :: "nat \<Rightarrow> AttributeValue" where
  "nested_arrays 0 = AttributeValue None None (Some 1) None None None []"
| "nested_arrays (Suc n) =
     AttributeValue None None None None (Some (Mk_ArrayValue (Some [nested_arrays n]))) None []"

definition nested_record :: "nat \<Rightarrow> LogRecord" where
  "nested_record n =
     \<lparr>TimeUnixNano = 1, SeverityText = ''INFO'', SeverityNumber = 9,
      Body = nested_arrays n, Attributes = []\<rparr>"

section \<open>The conversion of host values\<close>

lemma sint_int64_of_int:
  "- (2 ^ 63) \<le> i \<Longrightarrow> i < 2 ^ 63 \<Longrightarrow> sint (word_of_int i :: 64 word) = i"
  by (simp add: signed_of_int signed_take_bit_int_eq_self)

lemma populated_convertToAttributeValue: "populated (convertToAttributeValue v) = 1"
  by (cases v) (simp_all add: populated_def)

text \<open>
  C3, as stated, fails: an \<open>int32\<close> is a native signed 32-bit integer and a
  \<open>float32\<close> a floating-point value, the type switch has no case for either, and
  \<open>int32(5)\<close> and \<open>float32(1.5)\<close> come out as the strings \<open>5\<close> and \<open>1.5\<close>, with
  no integer and no double variant.
\<close>

theorem convertToAttributeValue_int32_counterexample:
  "convertToAttributeValue (GoInt32 5) = AttributeValue (Some ''5'') None None None None None []
   \<and> IntValue (convertToAttributeValue (GoInt32 5)) = None
   \<and> convertToAttributeValue (GoOther ''float32'' ''1.5'')
       = AttributeValue (Some ''1.5'') None None None None None []
   \<and> DoubleValue (convertToAttributeValue (GoOther ''float32'' ''1.5'')) = None"
  by (simp add: decimal_def)

text \<open>
  C3, amended: the conversion is total; a \<open>string\<close> gives the string variant with the
  same string, an \<open>int\<close> (of the platform's width, 64 bits at most) and an \<open>int64\<close>
  give the integer variant with the same numeric value, a \<open>float64\<close> the double
  variant, a \<open>bool\<close> the boolean variant; a value of any other type, \<open>int32\<close>,
  \<open>float32\<close> and the \<open>nil\<close> interface among them, gives the string variant that
  holds its default text. In each case no other variant is set.
\<close>

theorem convertToAttributeValue_cases:
  "convertToAttributeValue (GoString s) = AttributeValue (Some s) None None None None None []
   \<and> (- (2 ^ 63) \<le> i \<and> i < 2 ^ 63 \<longrightarrow>
        (\<exists>w. convertToAttributeValue (GoInt i)
               = AttributeValue None None (Some w) None None None []
             \<and> sint w = i))
   \<and> convertToAttributeValue (GoInt64 w64) = AttributeValue None None (Some w64) None None None []
   \<and> convertToAttributeValue (GoFloat64 f) = AttributeValue None None None (Some f) None None []
   \<and> convertToAttributeValue (GoBool b) = AttributeValue None (Some b) None None None None []
   \<and> convertToAttributeValue (GoInt32 w32)
       = AttributeValue (Some (decimal (sint w32))) None None None None None []
   \<and> convertToAttributeValue GoNil = AttributeValue (Some ''<nil>'') None None None None None []
   \<and> convertToAttributeValue (GoOther ty txt)
       = AttributeValue (Some txt) None None None None None []"
  by (simp add: sint_int64_of_int)

theorem convertToAttributeValue_cases_witness:
  "- (2 ^ 63) \<le> (3 :: int) \<and> (3 :: int) < 2 ^ 63
   \<and> convertToAttributeValue (GoInt 3) = AttributeValue None None (Some 3) None None None []
   \<and> sint (3 :: 64 word) = 3
   \<and> convertToAttributeValue (GoString ''john_doe'')
       = AttributeValue (Some ''john_doe'') None None None None None []
   \<and> convertToAttributeValue (GoBool True) = AttributeValue None (Some True) None None None None []
   \<and> convertToAttributeValue (GoInt32 (- 7))
       = AttributeValue (Some ''-7'') None None None None None []"
  using convertToAttributeValue_cases
    [of "''john_doe''" 3 0 "Float64 0" True "- 7" "''float32''" "''30.5''"]
  by (simp add: decimal_def)

section \<open>\<open>Log\<close>\<close>

lemma uint64_of_int64_same_bits: "uint64_of_int64 x = x"
  by (simp add: uint64_of_int64_def)

text \<open>
  C2: when the channel holds its 1000 records, \<open>Log\<close> takes the \<open>default\<close> of its
  \<open>select\<close>: the call is a step the program can take (it does not wait, as the
  worker's receive does on an empty channel), and it leads to a state that differs from
  the one it was made in only by the line it logs. The channel holds the same records
  as before, so the new record is the one that is lost, and \<open>Log\<close> hands nothing
  back to its caller.
\<close>

theorem Log_full_queue_drops_new_record:
  assumes "length (logQueue (sender s)) = logQueue_capacity"
  shows "step (Call_Log now severityText severityNumber message attrs) s
           = Some (s\<lparr>log_output := log_output s @ [Log_queue_full_dropping_log_entry]\<rparr>)
         \<and> Log now severityText severityNumber message attrs s
           = s\<lparr>log_output := log_output s @ [Log_queue_full_dropping_log_entry]\<rparr>
         \<and> logQueue (sender (Log now severityText severityNumber message attrs s))
           = logQueue (sender s)"
  using assms by (simp add: Log_def Let_def)

theorem Log_full_queue_drops_new_record_witness:
  "length (logQueue (sender full_queue_state)) = logQueue_capacity
   \<and> logQueue (sender (Log 2 ''WARN'' 13 ''Retry attempt'' None full_queue_state))
       = replicate 1000 example_record
   \<and> log_output (Log 2 ''WARN'' 13 ''Retry attempt'' None full_queue_state)
       = [Log_queue_full_dropping_log_entry]"
proof -
  have full: "length (logQueue (sender full_queue_state)) = logQueue_capacity"
    by (simp add: full_queue_state_def logQueue_capacity_def)
  from Log_full_queue_drops_new_record [OF full, of 2 "''WARN''" 13 "''Retry attempt''" None]
  show ?thesis
    using full by (simp add: full_queue_state_def Start_def)
qed

text \<open>
  C10, as stated, fails: the timestamp is whatever the clock reads, and a clock that
  reads the Unix epoch gives the record the timestamp 0.
\<close>

theorem Log_entry_timestamp_zero_counterexample:
  "TimeUnixNano (Log_entry 0 ''INFO'' 9 ''Application started'' None) = 0"
  by (simp add: Log_entry_def uint64_of_int64_def)

text \<open>
  C10, amended: the record \<open>Log\<close> builds has as body the string variant holding the
  message and nothing else, and as timestamp the clock's nanoseconds since the epoch
  read as an unsigned 64-bit number; the timestamp is 0 exactly when the clock reads
  the epoch itself. When the channel has room, this record is the one \<open>Log\<close>
  appends to it.
\<close>

theorem Log_entry_body_and_timestamp:
  "Body (Log_entry now severityText severityNumber message attrs)
     = AttributeValue (Some message) None None None None None []
   \<and> uint (TimeUnixNano (Log_entry now severityText severityNumber message attrs))
       = sint now mod 2 ^ 64
   \<and> (TimeUnixNano (Log_entry now severityText severityNumber message attrs) = 0
        \<longleftrightarrow> sint now = 0)
   \<and> (length (logQueue (sender s)) < logQueue_capacity \<longrightarrow>
        logQueue (sender (Log now severityText severityNumber message attrs s))
          = logQueue (sender s) @ [Log_entry now severityText severityNumber message attrs])"
proof -
  have "uint now = sint now mod 2 ^ 64"
    by (simp add: uint_sint take_bit_eq_mod)
  moreover have "now = 0 \<longleftrightarrow> sint now = 0"
    by (simp add: signed_eq_0_iff)
  ultimately show ?thesis
    by (cases attrs) (simp_all add: Log_entry_def Log_def Let_def uint64_of_int64_same_bits)
qed

theorem Log_entry_body_and_timestamp_witness:
  "Body (Log_entry 1700000000000000000 ''INFO'' 9 ''Application started'' None)
     = AttributeValue (Some ''Application started'') None None None None None []
   \<and> uint (TimeUnixNano (Log_entry 1700000000000000000 ''INFO'' 9 ''Application started'' None))
       = 1700000000000000000
   \<and> length (logQueue (sender (Start example_sender))) < logQueue_capacity
   \<and> logQueue (sender (Log 1700000000000000000 ''INFO'' 9 ''Application started'' None
        (Start example_sender)))
       = [Log_entry 1700000000000000000 ''INFO'' 9 ''Application started'' None]"
  using Log_entry_body_and_timestamp
    [of 1700000000000000000 "''INFO''" 9 "''Application started''" None "Start example_sender"]
  by (simp add: Start_def example_sender_def NewLogSender_def logQueue_capacity_def)

section \<open>One variant per value\<close>

lemma one_variant_Log_entry:
  "one_variant_record (Log_entry now severityText severityNumber message attrs)"
proof -
  have "populated (AttributeValue (Some message) None None None None None []) = 1"
    by (simp add: populated_def)
  then show ?thesis
    by (cases attrs)
       (simp_all add: one_variant_record_def Log_entry_def list_all_iff
          populated_convertToAttributeValue split_beta)
qed

lemma one_variant_Log:
  "one_variant_state s
    \<Longrightarrow> one_variant_state (Log now severityText severityNumber message attrs s)"
  by (simp add: one_variant_state_def Log_def Let_def one_variant_Log_entry)

lemma one_variant_flush: "one_variant_state s \<Longrightarrow> one_variant_state (flush tr site s)"
  by (simp add: one_variant_state_def flush_def Let_def)

lemma one_variant_receive:
  assumes ok: "one_variant_state s" and rc: "processQueue_receive tr s = Some s'"
  shows "one_variant_state s'"
proof (cases "logQueue (sender s)")
  case Nil
  with rc show ?thesis by (simp add: processQueue_receive_def)
next
  case (Cons entry rest)
  let ?s1 = "s\<lparr>sender := (sender s)\<lparr>logQueue := rest\<rparr>, batch := batch s @ [entry]\<rparr>"
  from ok Cons have s1: "one_variant_state ?s1"
    by (simp add: one_variant_state_def)
  from rc Cons have "s' = flush tr Batch_full ?s1 \<or> s' = ?s1"
    by (auto simp: processQueue_receive_def Let_def split: if_splits)
  with s1 show ?thesis
    using one_variant_flush by blast
qed

lemma one_variant_step:
  "one_variant_state s \<Longrightarrow> step e s = Some s' \<Longrightarrow> one_variant_state s'"
  by (cases e)
     (auto simp: one_variant_Log one_variant_flush processQueue_tick_def
        intro: one_variant_receive)

lemma one_variant_run:
  "one_variant_state s \<Longrightarrow> run es s = Some s' \<Longrightarrow> one_variant_state s'"
proof (induction es arbitrary: s)
  case Nil
  then show ?case by simp
next
  case (Cons e es)
  then show ?case
    by (auto split: option.splits dest: one_variant_step)
qed

lemma one_variant_Start: "one_variant_state (Start (NewLogSender ep n))"
  by (simp add: one_variant_state_def Start_def NewLogSender_def)

text \<open>
  C7: every \<open>AttributeValue\<close> the program constructs has exactly one variant set: the
  result of the conversion, the body and the attribute values of the record \<open>Log\<close>
  builds, and the three resource attributes of \<open>sendBatch\<close>. So has every value of
  every record that, at any point of any run from the start, is in the channel, in the
  worker's batch, or was handed to \<open>sendBatch\<close>. The program builds no value with no
  variant set, and none with two.
\<close>

theorem exactly_one_variant_populated:
  "populated (convertToAttributeValue v) = 1
   \<and> populated (Body (Log_entry now severityText severityNumber message attrs)) = 1
   \<and> (\<forall>kv \<in> set (Attributes (Log_entry now severityText severityNumber message attrs)).
        populated (Value kv) = 1)
   \<and> (\<exists>kvs. Resource_Attributes sendBatch_resource = Some kvs \<and> length kvs = 3
         \<and> (\<forall>kv \<in> set kvs. populated (Value kv) = 1))
   \<and> (run es (Start (NewLogSender ep n)) = Some s \<longrightarrow> one_variant_state s)"
proof -
  have "one_variant_record (Log_entry now severityText severityNumber message attrs)"
    by (rule one_variant_Log_entry)
  then have "populated (Body (Log_entry now severityText severityNumber message attrs)) = 1"
    and "\<forall>kv \<in> set (Attributes (Log_entry now severityText severityNumber message attrs)).
           populated (Value kv) = 1"
    by (simp_all add: one_variant_record_def list_all_iff)
  moreover have "\<exists>kvs. Resource_Attributes sendBatch_resource = Some kvs \<and> length kvs = 3
      \<and> (\<forall>kv \<in> set kvs. populated (Value kv) = 1)"
    by (simp add: sendBatch_resource_def populated_def stringPtr_def)
  moreover have "run es (Start (NewLogSender ep n)) = Some s \<longrightarrow> one_variant_state s"
    using one_variant_run [OF one_variant_Start] by blast
  ultimately show ?thesis
    by (simp add: populated_convertToAttributeValue)
qed

theorem exactly_one_variant_populated_witness:
  "populated (convertToAttributeValue (GoFloat64 (Float64 0x403E800000000000))) = 1
   \<and> Attributes (Log_entry 1 ''WARN'' 13 ''Retry attempt'' (Some [(''retry.count'', GoInt 3)]))
       = [KeyValue ''retry.count'' (AttributeValue None None (Some 3) None None None [])]
   \<and> populated (AttributeValue None None (Some 3) None None None []) = 1
   \<and> populated (AttributeValue (Some ''my-go-app'') None None None None None []) = 1
   \<and> run [example_call 1] (Start (NewLogSender ''http://localhost:4318'' 10))
       = Some (Log 1 ''INFO'' 9 ''Application started'' None
                (Start (NewLogSender ''http://localhost:4318'' 10)))
   \<and> one_variant_state (Log 1 ''INFO'' 9 ''Application started'' None
        (Start (NewLogSender ''http://localhost:4318'' 10)))"
  using exactly_one_variant_populated
    [of "GoFloat64 (Float64 0x403E800000000000)" 1 "''WARN''" 13 "''Retry attempt''"
        "Some [(''retry.count'', GoInt 3)]" "[example_call 1]" "''http://localhost:4318''" 10
        "Log 1 ''INFO'' 9 ''Application started'' None
           (Start (NewLogSender ''http://localhost:4318'' 10))"]
  by (simp add: Log_entry_def sendBatch_resource_def stringPtr_def example_call_def)

section \<open>What the encoder refuses\<close>

lemma first_Some_None: "first_Some xs = None \<longleftrightarrow> (\<forall>x \<in> set xs. x = None)"
  by (induction xs) (auto split: option.splits)

lemma first_Some_Some: "first_Some xs = Some e \<Longrightarrow> Some e \<in> set xs"
  by (induction xs) (auto split: option.splits)

lemma foldr_max_le: "foldr max xs 0 \<le> n \<longleftrightarrow> (\<forall>x \<in> set xs. x \<le> (n :: nat))"
  by (induction xs) auto

lemma first_error_None:
  "d \<le> max_nesting_depth
    \<Longrightarrow> first_error d j = None
        \<longleftrightarrow> finite_doubles j \<and> d + json_depth j \<le> max_nesting_depth"
proof (induction j arbitrary: d)
  case (JArray xs)
  show ?case
  proof (cases "max_nesting_depth \<le> d")
    case True
    then show ?thesis by simp
  next
    case False
    then have "d + Suc (foldr max (map json_depth xs) 0) \<le> max_nesting_depth
        \<longleftrightarrow> (\<forall>x \<in> set xs. Suc d + json_depth x \<le> max_nesting_depth)"
      using foldr_max_le [of "map json_depth xs" "max_nesting_depth - Suc d"] by auto
    moreover from False have "Suc d \<le> max_nesting_depth" by simp
    ultimately show ?thesis
      using False JArray.IH [of _ "Suc d"] by (auto simp: first_Some_None list_all_iff)
  qed
next
  case (JObject ms)
  show ?case
  proof (cases "max_nesting_depth \<le> d")
    case True
    then show ?thesis by simp
  next
    case False
    then have "d + Suc (foldr max (map (\<lambda>m. json_depth (snd m)) ms) 0) \<le> max_nesting_depth
        \<longleftrightarrow> (\<forall>m \<in> set ms. Suc d + json_depth (snd m) \<le> max_nesting_depth)"
      using foldr_max_le [of "map (\<lambda>m. json_depth (snd m)) ms" "max_nesting_depth - Suc d"]
      by auto
    moreover have "first_error (Suc d) (snd m) = None
        \<longleftrightarrow> finite_doubles (snd m) \<and> Suc d + json_depth (snd m) \<le> max_nesting_depth"
      if "m \<in> set ms" for m
    proof -
      have "snd m \<in> Basic_BNFs.snds m" by (cases m) simp
      moreover from False have "Suc d \<le> max_nesting_depth" by simp
      ultimately show ?thesis using JObject.IH [OF that] by blast
    qed
    ultimately show ?thesis
      using False by (auto simp: first_Some_None list_all_iff)
  qed
qed simp_all

lemma first_error_unsupported:
  "first_error d j = Some UnsupportedValueError \<Longrightarrow> \<not> finite_doubles j"
proof (induction j arbitrary: d)
  case (JArray xs)
  from JArray.prems
  have "Some UnsupportedValueError \<in> set (map (first_error (Suc d)) xs)"
    by (auto split: if_splits dest!: first_Some_Some)
  then obtain x where "x \<in> set xs"
    and "first_error (Suc d) x = Some UnsupportedValueError"
    by auto
  with JArray.IH show ?case
    by (auto simp: list_all_iff)
next
  case (JObject ms)
  from JObject.prems
  have "Some UnsupportedValueError \<in> set (map (\<lambda>m. first_error (Suc d) (snd m)) ms)"
    by (auto split: if_splits dest!: first_Some_Some)
  then obtain m where m: "m \<in> set ms"
    and err: "first_error (Suc d) (snd m) = Some UnsupportedValueError"
    by auto
  have "snd m \<in> Basic_BNFs.snds m" by (cases m) simp
  from JObject.IH [OF m this err] m show ?case
    by (auto simp: list_all_iff)
qed (simp_all split: if_splits)

lemma first_error_depth:
  "first_error d j = Some Exceeded_max_depth \<Longrightarrow> max_nesting_depth < d + json_depth j"
proof (induction j arbitrary: d)
  case (JArray xs)
  show ?case
  proof (cases "max_nesting_depth \<le> d")
    case True
    then show ?thesis by simp
  next
    case False
    with JArray.prems
    have "Some Exceeded_max_depth \<in> set (map (first_error (Suc d)) xs)"
      by (auto dest!: first_Some_Some)
    then obtain x where x: "x \<in> set xs"
      and "first_error (Suc d) x = Some Exceeded_max_depth"
      by auto
    with JArray.IH have "max_nesting_depth < Suc d + json_depth x" by blast
    moreover have "json_depth x \<le> foldr max (map json_depth xs) 0"
      using x foldr_max_le [of "map json_depth xs" "foldr max (map json_depth xs) 0"] by simp
    ultimately show ?thesis by simp
  qed
next
  case (JObject ms)
  show ?case
  proof (cases "max_nesting_depth \<le> d")
    case True
    then show ?thesis by simp
  next
    case False
    with JObject.prems
    have "Some Exceeded_max_depth \<in> set (map (\<lambda>m. first_error (Suc d) (snd m)) ms)"
      by (auto dest!: first_Some_Some)
    then obtain m where m: "m \<in> set ms"
      and err: "first_error (Suc d) (snd m) = Some Exceeded_max_depth"
      by auto
    have "snd m \<in> Basic_BNFs.snds m" by (cases m) simp
    from JObject.IH [OF m this err]
    have "max_nesting_depth < Suc d + json_depth (snd m)" .
    moreover have "json_depth (snd m) \<le> foldr max (map (\<lambda>m. json_depth (snd m)) ms) 0"
      using m foldr_max_le [of "map (\<lambda>m. json_depth (snd m)) ms"
                               "foldr max (map (\<lambda>m. json_depth (snd m)) ms) 0"]
      by simp
    ultimately show ?thesis by simp
  qed
qed (simp_all split: if_splits)

lemma json_Marshal_Inr:
  "json_Marshal rls = Inr body
     \<longleftrightarrow> body = envelope rls \<and> finite_doubles (envelope rls)
         \<and> json_depth (envelope rls) \<le> max_nesting_depth"
  using first_error_None [of 0 "envelope rls"]
  by (auto simp: json_Marshal_def split: option.splits)

lemma json_Marshal_Inl:
  "json_Marshal rls = Inl err \<Longrightarrow> finite_doubles (envelope rls) \<Longrightarrow> err = Exceeded_max_depth"
  using first_error_unsupported [of 0 "envelope rls"]
  by (cases err) (auto simp: json_Marshal_def split: option.splits)

lemma finite_doubles_marshal_AttributeValue:
    "finite_doubles (marshal_AttributeValue v) \<longleftrightarrow> supported_AttributeValue v"
  and finite_doubles_marshal_ArrayValue:
    "finite_doubles (marshal_ArrayValue av) \<longleftrightarrow> supported_ArrayValue av"
  and finite_doubles_marshal_KvlistValue:
    "finite_doubles (marshal_KvlistValue kvl) \<longleftrightarrow> supported_KvlistValue kvl"
  and finite_doubles_marshal_KeyValue:
    "finite_doubles (marshal_KeyValue kv) \<longleftrightarrow> supported_KeyValue kv"
proof (induction v and av and kvl and kv)
  case (AttributeValue s b i d a k y)
  then show ?case
    by (cases s; cases b; cases i; cases d; cases a; cases k)
       (simp_all add: omitempty_ptr_def omitempty_slice_def marshal_string_def)
next
  case (Mk_ArrayValue vs)
  then show ?case
    by (cases vs) (auto simp: marshal_slice_def list_all_iff)
next
  case (Mk_KvlistValue kvs)
  then show ?case
    by (cases kvs) (auto simp: marshal_slice_def list_all_iff)
next
  case (KeyValue k v)
  then show ?case
    by (simp add: marshal_string_def)
qed

lemma finite_doubles_marshal_LogRecord:
  "finite_doubles (marshal_LogRecord r) \<longleftrightarrow> supported_LogRecord r"
  by (auto simp: marshal_LogRecord_def supported_LogRecord_def omitempty_slice_def
        finite_doubles_marshal_AttributeValue finite_doubles_marshal_KeyValue
        marshal_string_def list_all_iff)

lemma envelope_sendBatch_payload:
  "envelope (sendBatch_payload records)
     = JObject [(''resourceLogs'', JArray [JObject
         [(''resource'', JObject [(''attributes'', JArray
             [JObject [(''key'', JString ''service.name''),
                       (''value'', JObject [(''stringValue'', JString ''my-go-app'')])],
              JObject [(''key'', JString ''service.version''),
                       (''value'', JObject [(''stringValue'', JString ''1.0.0'')])],
              JObject [(''key'', JString ''telemetry.sdk.language''),
                       (''value'', JObject [(''stringValue'', JString ''go'')])]])]),
          (''scope_logs'', JArray [JObject
             ([(''scope'', JObject [(''name'', JString ''custom-logger''),
                                    (''version'', JString ''1.0'')])]
              @ (if records = [] then []
                 else [(''log_records'', JArray (map marshal_LogRecord records))]))])]])]"
  by (simp add: envelope_def sendBatch_payload_def sendBatch_resource_def stringPtr_def
        marshal_ResourceLogs_def marshal_Resource_def marshal_ScopeLogs_def marshal_Scope_def
        marshal_slice_def omitempty_slice_def omitempty_string_def omitempty_ptr_def
        marshal_string_def utf8_coerce_def)

lemma finite_doubles_envelope:
  "finite_doubles (envelope (sendBatch_payload records)) \<longleftrightarrow> list_all supported_LogRecord records"
  unfolding envelope_sendBatch_payload
  by (simp add: list_all_iff finite_doubles_marshal_LogRecord)

lemma json_depth_marshal_LogRecord: "2 \<le> json_depth (marshal_LogRecord r)"
  by (cases "Body r") (simp add: marshal_LogRecord_def)

lemma json_depth_envelope:
  "json_depth (envelope (sendBatch_payload records)) \<le> max_nesting_depth
     \<longleftrightarrow> list_all shallow_LogRecord records"
proof (cases "records = []")
  case True
  then show ?thesis
    unfolding envelope_sendBatch_payload by (simp add: max_nesting_depth_def)
next
  case False
  then obtain r where r: "r \<in> set records"
    by (cases records) auto
  have "foldr max (map json_depth (map marshal_LogRecord records)) 0 \<le> n
      \<longleftrightarrow> (\<forall>r \<in> set records. json_depth (marshal_LogRecord r) \<le> n)" for n
    by (simp add: foldr_max_le)
  have deep: "2 \<le> foldr max (map json_depth (map marshal_LogRecord records)) 0"
    using r json_depth_marshal_LogRecord [of r]
      foldr_max_le [of "map json_depth (map marshal_LogRecord records)"
                       "foldr max (map json_depth (map marshal_LogRecord records)) 0"]
    by fastforce
  have "json_depth (envelope (sendBatch_payload records))
      = 6 + foldr max (map json_depth (map marshal_LogRecord records)) 0"
    unfolding envelope_sendBatch_payload using False deep by (simp add: max_def)
  moreover have "6 + foldr max (map json_depth (map marshal_LogRecord records)) 0
        \<le> max_nesting_depth
      \<longleftrightarrow> (\<forall>r \<in> set records. 6 + json_depth (marshal_LogRecord r) \<le> max_nesting_depth)"
    using foldr_max_le [of "map json_depth (map marshal_LogRecord records)"
                           "max_nesting_depth - 6"]
    by (auto simp: max_nesting_depth_def)
  ultimately show ?thesis
    by (simp add: list_all_iff shallow_LogRecord_def)
qed

lemma json_Marshal_sendBatch_payload:
  "json_Marshal (sendBatch_payload records) = Inr body
     \<longleftrightarrow> body = envelope (sendBatch_payload records)
         \<and> list_all supported_LogRecord records \<and> list_all shallow_LogRecord records"
  by (simp add: json_Marshal_Inr finite_doubles_envelope json_depth_envelope)

lemma json_Marshal_accepts:
  "list_all supported_LogRecord records \<Longrightarrow> list_all shallow_LogRecord records
    \<Longrightarrow> json_Marshal (sendBatch_payload records) = Inr (envelope (sendBatch_payload records))"
  by (simp add: json_Marshal_sendBatch_payload)

lemma json_Marshal_refuses:
  "(\<exists>err. json_Marshal (sendBatch_payload records) = Inl err)
     \<longleftrightarrow> \<not> (list_all supported_LogRecord records \<and> list_all shallow_LogRecord records)"
proof -
  have "(\<exists>err. json_Marshal (sendBatch_payload records) = Inl err)
      \<longleftrightarrow> \<not> (\<exists>body. json_Marshal (sendBatch_payload records) = Inr body)"
    by (cases "json_Marshal (sendBatch_payload records)") auto
  then show ?thesis
    by (simp add: json_Marshal_sendBatch_payload)
qed

lemma json_depth_convertToAttributeValue:
  "json_depth (marshal_AttributeValue (convertToAttributeValue v)) = 1"
  by (cases v) (simp_all add: omitempty_ptr_def omitempty_slice_def marshal_string_def)

lemma shallow_Log_entry:
  "shallow_LogRecord (Log_entry now severityText severityNumber message attrs)"
proof (cases attrs)
  case None
  then show ?thesis
    by (simp add: shallow_LogRecord_def Log_entry_def marshal_LogRecord_def marshal_string_def
          omitempty_ptr_def omitempty_slice_def max_nesting_depth_def)
next
  case (Some kvs)
  have "foldr max (map json_depth
          (map marshal_KeyValue (map (\<lambda>(k, v). KeyValue k (convertToAttributeValue v)) kvs))) 0 \<le> 2"
    by (auto simp: foldr_max_le json_depth_convertToAttributeValue marshal_string_def)
  with Some show ?thesis
    by (simp add: shallow_LogRecord_def Log_entry_def marshal_LogRecord_def marshal_string_def
          omitempty_ptr_def omitempty_slice_def max_nesting_depth_def)
qed

section \<open>\<open>sendBatch\<close>\<close>

lemma flush_leaves_the_queue:
  "sender (flush tr site s) = sender s
   \<and> batch (flush tr site s) = []
   \<and> requests (flush tr site s) = requests s @ requested (sendBatch tr (sender s) (batch s))
   \<and> log_output (flush tr site s) = log_output s @ logged (sendBatch tr (sender s) (batch s))
   \<and> sendBatch_calls (flush tr site s) = sendBatch_calls s @ [(site, batch s)]"
  by (simp add: flush_def Let_def)

lemma localhost_url_accepted:
  "control_character_error ''http://localhost:4318/v1/logs'' = None"
  by (simp add: control_character_error_def)

lemma sendBatch_endpoint:
  "sendBatch tr \<lparr>endpoint = ep, batchSize = n, logQueue = q\<rparr> records
     = sendBatch tr (NewLogSender ep n') records"
  by (simp add: sendBatch_def sendBatch_request_def NewLogSender_def
        split: sum.splits option.splits)

lemma requested_sendBatch:
  "requested (sendBatch tr ls records)
     = (if list_all supported_LogRecord records \<and> list_all shallow_LogRecord records
          \<and> NewRequest_error tr (endpoint ls @ ''/v1/logs'') = None
        then [\<lparr>Method = ''POST'', URL = endpoint ls @ ''/v1/logs'',
               Content_Type = ''application/json'',
               Request_Body = envelope (sendBatch_payload records)\<rparr>]
        else [])"
proof (cases "json_Marshal (sendBatch_payload records)")
  case (Inl err)
  then have "\<not> (list_all supported_LogRecord records \<and> list_all shallow_LogRecord records)"
    using json_Marshal_refuses [of records] by blast
  with Inl show ?thesis
    by (auto simp: sendBatch_def)
next
  case (Inr body)
  then have "body = envelope (sendBatch_payload records)"
    and "list_all supported_LogRecord records \<and> list_all shallow_LogRecord records"
    by (simp_all add: json_Marshal_sendBatch_payload)
  with Inr show ?thesis
    by (simp add: sendBatch_def sendBatch_request_def Let_def split: option.splits sum.splits)
qed

lemma sendBatch_collector_answering:
  assumes "list_all supported_LogRecord records" and "list_all shallow_LogRecord records"
    and "control_character_error (endpoint ls @ ''/v1/logs'') = None"
  shows "sendBatch (collector_answering status) ls records
     = \<lparr>logged = (if status \<ge> 400
                  then [Failed_to_decode_error_response ''EOF'', Received_status_code status]
                  else [Logs_successfully_sent]),
        requested = [\<lparr>Method = ''POST'', URL = endpoint ls @ ''/v1/logs'',
                      Content_Type = ''application/json'',
                      Request_Body = envelope (sendBatch_payload records)\<rparr>],
        outcome = (if status \<ge> 400 then Rejected else Delivered)\<rparr>"
  using assms json_Marshal_accepts [of records]
  by (simp add: sendBatch_def sendBatch_request_def collector_answering_def)

lemma marshal_example_record:
  "json_Marshal (sendBatch_payload [example_record])
     = Inr (JObject [(''resourceLogs'',
              JArray (map marshal_ResourceLogs (sendBatch_payload [example_record])))])"
proof -
  have "supported_LogRecord example_record"
    by (simp add: example_record_def Log_entry_def supported_LogRecord_def)
  moreover have "shallow_LogRecord example_record"
    by (simp add: example_record_def shallow_Log_entry)
  ultimately show ?thesis
    using json_Marshal_accepts [of "[example_record]"] by (simp add: envelope_def)
qed

text \<open>
  C4, as stated, fails, in two ways. The program takes every status below 400 for a
  delivery, and \<open>net/http\<close> hands a response with status 101 to its caller: status
  101 is neither 2xx nor 3xx, and the batch counts as sent. And a flush can end in a
  fifth way, at line 259: with an endpoint from which no request can be built, nothing
  is serialized wrongly, nothing is sent and nothing is answered.
\<close>

theorem sendBatch_status_101_counterexample:
  "outcome (sendBatch (collector_answering 101) example_sender [example_record]) = Delivered
   \<and> logged (sendBatch (collector_answering 101) example_sender [example_record])
       = [Logs_successfully_sent]
   \<and> outcome (sendBatch (collector_answering 200) newline_sender [example_record])
       = RequestFailure
   \<and> logged (sendBatch (collector_answering 200) newline_sender [example_record])
       = [Error_creating_request ''net/url: invalid control character in URL'']
   \<and> requested (sendBatch (collector_answering 200) newline_sender [example_record]) = []"
  by (simp add: sendBatch_def marshal_example_record collector_answering_def
        localhost_url_accepted example_sender_def newline_sender_def NewLogSender_def
        control_character_error_def)

text \<open>
  C4, amended: every call of \<open>sendBatch\<close> ends in exactly one of five ways:
  \<open>EncodeFailure\<close> when and only when the payload cannot be serialized;
  \<open>RequestFailure\<close> when and only when it can and the request cannot be built from
  the endpoint; \<open>TransportFailure\<close> when and only when the client returns an error;
  \<open>Rejected\<close> when and only when the client returns a response whose status is 400
  or more; \<open>Delivered\<close> when and only when it returns a response whose status is
  below 400. In every case at most one request is made, and the flush leaves the sender
  and its channel as they were and the batch empty: the records are not sent again, not
  put back and not kept.
\<close>

theorem sendBatch_outcome_classification:
  "(outcome (sendBatch tr ls records) = EncodeFailure
      \<longleftrightarrow> (\<exists>err. json_Marshal (sendBatch_payload records) = Inl err))
   \<and> (outcome (sendBatch tr ls records) = RequestFailure
      \<longleftrightarrow> (\<exists>body err. json_Marshal (sendBatch_payload records) = Inr body
            \<and> NewRequest_error tr (endpoint ls @ ''/v1/logs'') = Some err))
   \<and> (outcome (sendBatch tr ls records) = TransportFailure
      \<longleftrightarrow> (\<exists>body err. json_Marshal (sendBatch_payload records) = Inr body
            \<and> NewRequest_error tr (endpoint ls @ ''/v1/logs'') = None
            \<and> client_Do tr (sendBatch_request ls body) = Inl err))
   \<and> (outcome (sendBatch tr ls records) = Rejected
      \<longleftrightarrow> (\<exists>body resp. json_Marshal (sendBatch_payload records) = Inr body
            \<and> NewRequest_error tr (endpoint ls @ ''/v1/logs'') = None
            \<and> client_Do tr (sendBatch_request ls body) = Inr resp
            \<and> StatusCode resp \<ge> 400))
   \<and> (outcome (sendBatch tr ls records) = Delivered
      \<longleftrightarrow> (\<exists>body resp. json_Marshal (sendBatch_payload records) = Inr body
            \<and> NewRequest_error tr (endpoint ls @ ''/v1/logs'') = None
            \<and> client_Do tr (sendBatch_request ls body) = Inr resp
            \<and> StatusCode resp < 400))
   \<and> length (requested (sendBatch tr ls records)) \<le> 1
   \<and> sender (flush tr site s) = sender s
   \<and> batch (flush tr site s) = []
   \<and> requests (flush tr site s) = requests s @ requested (sendBatch tr (sender s) (batch s))"
proof -
  have "length (requested (sendBatch tr ls records)) \<le> 1"
    by (simp add: sendBatch_def Let_def split: sum.splits option.splits)
  moreover have "outcome (sendBatch tr ls records) = EncodeFailure
      \<longleftrightarrow> (\<exists>err. json_Marshal (sendBatch_payload records) = Inl err)"
    by (simp add: sendBatch_def Let_def split: sum.splits option.splits)
  moreover have "outcome (sendBatch tr ls records) = RequestFailure
      \<longleftrightarrow> (\<exists>body err. json_Marshal (sendBatch_payload records) = Inr body
            \<and> NewRequest_error tr (endpoint ls @ ''/v1/logs'') = Some err)"
    by (simp add: sendBatch_def Let_def split: sum.splits option.splits)
  moreover have "outcome (sendBatch tr ls records) = TransportFailure
      \<longleftrightarrow> (\<exists>body err. json_Marshal (sendBatch_payload records) = Inr body
            \<and> NewRequest_error tr (endpoint ls @ ''/v1/logs'') = None
            \<and> client_Do tr (sendBatch_request ls body) = Inl err)"
    by (simp add: sendBatch_def Let_def split: sum.splits option.splits)
  moreover have "outcome (sendBatch tr ls records) = Rejected
      \<longleftrightarrow> (\<exists>body resp. json_Marshal (sendBatch_payload records) = Inr body
            \<and> NewRequest_error tr (endpoint ls @ ''/v1/logs'') = None
            \<and> client_Do tr (sendBatch_request ls body) = Inr resp
            \<and> StatusCode resp \<ge> 400)"
    by (simp add: sendBatch_def Let_def split: sum.splits option.splits)
  moreover have "outcome (sendBatch tr ls records) = Delivered
      \<longleftrightarrow> (\<exists>body resp. json_Marshal (sendBatch_payload records) = Inr body
            \<and> NewRequest_error tr (endpoint ls @ ''/v1/logs'') = None
            \<and> client_Do tr (sendBatch_request ls body) = Inr resp
            \<and> StatusCode resp < 400)"
    by (auto simp: sendBatch_def Let_def split: sum.splits option.splits)
  ultimately show ?thesis
    using flush_leaves_the_queue [of tr site s] by simp
qed

theorem sendBatch_outcome_classification_witness:
  "outcome (sendBatch (collector_answering 500) example_sender [example_record]) = Rejected
   \<and> outcome (sendBatch (collector_answering 200) example_sender [example_record]) = Delivered
   \<and> length (requested (sendBatch (collector_answering 500) example_sender [example_record])) \<le> 1
   \<and> batch (flush (collector_answering 500) Ticker
        ((Start example_sender)\<lparr>batch := [example_record]\<rparr>)) = []
   \<and> logQueue (sender (flush (collector_answering 500) Ticker
        ((Start example_sender)\<lparr>batch := [example_record]\<rparr>))) = []"
  using sendBatch_outcome_classification
    [of "collector_answering 500" example_sender "[example_record]" Ticker
        "(Start example_sender)\<lparr>batch := [example_record]\<rparr>"]
  by (simp add: sendBatch_def marshal_example_record collector_answering_def Start_def
        example_sender_def NewLogSender_def localhost_url_accepted)

text \<open>
  C9: when the collector answers a flush with status 422 and a body that does not
  decode, \<open>sendBatch\<close> logs two lines, of which exactly one notes the decode failure
  (the other gives the status code), and makes the one request and no other. The flush
  leaves the sender and its channel as they were and the batch empty: the records are
  neither sent again nor put back.
\<close>

theorem status_422_undecodable_body:
  assumes "json_Marshal (sendBatch_payload (batch s)) = Inr body"
    and "NewRequest_error tr (endpoint (sender s) @ ''/v1/logs'') = None"
    and "client_Do tr (sendBatch_request (sender s) body) = Inr resp"
    and "StatusCode resp = 422"
    and "Decode_body tr (Response_Body resp) = Inl err"
  shows "logged (sendBatch tr (sender s) (batch s))
           = [Failed_to_decode_error_response err, Received_status_code 422]
         \<and> length (filter notes_decode_failure (logged (sendBatch tr (sender s) (batch s)))) = 1
         \<and> requested (sendBatch tr (sender s) (batch s)) = [sendBatch_request (sender s) body]
         \<and> outcome (sendBatch tr (sender s) (batch s)) = Rejected
         \<and> sender (flush tr site s) = sender s
         \<and> batch (flush tr site s) = []
         \<and> requests (flush tr site s) = requests s @ [sendBatch_request (sender s) body]
         \<and> log_output (flush tr site s)
             = log_output s @ [Failed_to_decode_error_response err, Received_status_code 422]"
proof -
  from assms
  have "sendBatch tr (sender s) (batch s)
          = \<lparr>logged = [Failed_to_decode_error_response err, Received_status_code 422],
             requested = [sendBatch_request (sender s) body], outcome = Rejected\<rparr>"
    by (simp add: sendBatch_def Let_def)
  then show ?thesis
    using flush_leaves_the_queue [of tr site s] by (simp add: notes_decode_failure_def)
qed

theorem status_422_undecodable_body_witness:
  "json_Marshal (sendBatch_payload [example_record])
     = Inr (JObject [(''resourceLogs'',
              JArray (map marshal_ResourceLogs (sendBatch_payload [example_record])))])
   \<and> NewRequest_error (collector_answering 422) (''http://localhost:4318'' @ ''/v1/logs'') = None
   \<and> Decode_body (collector_answering 422) [] = Inl ''EOF''
   \<and> logged (sendBatch (collector_answering 422) example_sender [example_record])
       = [Failed_to_decode_error_response ''EOF'', Received_status_code 422]
   \<and> length (filter notes_decode_failure
        (logged (sendBatch (collector_answering 422) example_sender [example_record]))) = 1
   \<and> length (requested (sendBatch (collector_answering 422) example_sender [example_record])) = 1
   \<and> logQueue (sender (flush (collector_answering 422) Batch_full
        ((Start example_sender)\<lparr>batch := [example_record]\<rparr>))) = []
   \<and> batch (flush (collector_answering 422) Batch_full
        ((Start example_sender)\<lparr>batch := [example_record]\<rparr>)) = []"
proof -
  let ?s = "(Start example_sender)\<lparr>batch := [example_record]\<rparr>"
  let ?body = "JObject [(''resourceLogs'',
                  JArray (map marshal_ResourceLogs (sendBatch_payload [example_record])))]"
  let ?resp = "\<lparr>StatusCode = 422, Response_Body = []\<rparr>"
  have snd: "sender ?s = example_sender" and bat: "batch ?s = [example_record]"
    by (simp_all add: Start_def)
  have h1: "json_Marshal (sendBatch_payload (batch ?s)) = Inr ?body"
    by (simp add: bat marshal_example_record)
  have h2: "NewRequest_error (collector_answering 422) (endpoint (sender ?s) @ ''/v1/logs'') = None"
    using localhost_url_accepted
    by (simp add: collector_answering_def Start_def example_sender_def NewLogSender_def)
  have h3: "client_Do (collector_answering 422) (sendBatch_request (sender ?s) ?body) = Inr ?resp"
    by (simp add: collector_answering_def)
  have h4: "StatusCode ?resp = 422"
    by simp
  have h5: "Decode_body (collector_answering 422) (Response_Body ?resp) = Inl ''EOF''"
    by (simp add: collector_answering_def)
  from status_422_undecodable_body [OF h1 h2 h3 h4 h5, of Batch_full] h1 h2 h5
  show ?thesis
    by (simp add: Start_def example_sender_def NewLogSender_def notes_decode_failure_def)
qed

section \<open>The request body\<close>

lemma member_names_AttributeValue:
  "member_names (marshal_AttributeValue v)
     = (if StringValue v = None then [] else [''stringValue''])
       @ (if BoolValue v = None then [] else [''boolValue''])
       @ (if IntValue v = None then [] else [''intValue''])
       @ (if DoubleValue v = None then [] else [''doubleValue''])
       @ (if ArrayValue v = None then [] else [''arrayValue''])
       @ (if KvlistValue v = None then [] else [''kvlistValue''])
       @ (if BytesValue v = [] then [] else [''bytesValue''])"
  by (cases v)
     (simp add: member_names_def members_def omitempty_ptr_def omitempty_slice_def
        split: option.splits)

lemma marshal_ArrayValue_not_null: "JNull \<noteq> marshal_ArrayValue av"
  by (cases av) simp

lemma marshal_KvlistValue_not_null: "JNull \<noteq> marshal_KvlistValue kvl"
  by (cases kvl) simp

lemma no_null_member_AttributeValue:
  "JNull \<notin> snd ` set (members (marshal_AttributeValue v))"
  by (cases v)
     (auto simp: members_def omitempty_ptr_def omitempty_slice_def marshal_string_def
        marshal_ArrayValue_not_null marshal_KvlistValue_not_null
        split: option.splits if_splits)

text \<open>
  C5, as stated, fails: the list of scope logs is written under the key of its struct
  tag, which is \<open>scope_logs\<close>, and the body of the request has no member
  \<open>scopeLogs\<close>.
\<close>

theorem scope_logs_key_counterexample:
  "map member_names (map marshal_ResourceLogs (sendBatch_payload [example_record]))
     = [[''resource'', ''scope_logs'']]
   \<and> map Request_Body
        (requested (sendBatch (collector_answering 200) example_sender [example_record]))
       = [JObject [(''resourceLogs'',
            JArray (map marshal_ResourceLogs (sendBatch_payload [example_record])))]]"
proof -
  have "map member_names (map marshal_ResourceLogs (sendBatch_payload [example_record]))
      = [[''resource'', ''scope_logs'']]"
    by (simp add: sendBatch_payload_def marshal_ResourceLogs_def member_names_def members_def
          omitempty_slice_def)
  moreover
  have "map Request_Body
        (requested (sendBatch (collector_answering 200) example_sender [example_record]))
       = [JObject [(''resourceLogs'',
            JArray (map marshal_ResourceLogs (sendBatch_payload [example_record])))]]"
    by (simp add: sendBatch_def marshal_example_record collector_answering_def
          localhost_url_accepted example_sender_def NewLogSender_def sendBatch_request_def)
  ultimately show ?thesis by simp
qed

text \<open>
  C5, amended: \<open>sendBatch\<close> makes a request for a batch when and only when the
  encoder accepts the batch (every double in it is finite and the envelope stays within
  the nesting limit) and a request can be built from the endpoint. The request is then
  the one POST to the endpoint followed by \<open>/v1/logs\<close>, of content type
  \<open>application/json\<close>, whose body is the object with the one member
  \<open>resourceLogs\<close>, a list of one object with the members \<open>resource\<close> (the three
  resource attributes under \<open>attributes\<close>) and \<open>scope_logs\<close>, a list of one object
  with the members \<open>scope\<close> (\<open>name\<close> and \<open>version\<close>) and, unless the batch is
  empty, \<open>log_records\<close>, the list of the records in the order of the batch. A record
  is written with the members \<open>timeUnixNano\<close>, \<open>severityText\<close>,
  \<open>severityNumber\<close>, \<open>body\<close> and, unless it has no attributes, \<open>attributes\<close>; a
  key-value pair with \<open>key\<close> and \<open>value\<close>; a value with the member of each variant
  that is set and of no other, none of them null. An empty list of scope logs is left
  out as well.
\<close>

theorem request_body_members:
  "requested (sendBatch tr ls records)
     = (if list_all supported_LogRecord records \<and> list_all shallow_LogRecord records
          \<and> NewRequest_error tr (endpoint ls @ ''/v1/logs'') = None
        then [\<lparr>Method = ''POST'', URL = endpoint ls @ ''/v1/logs'',
               Content_Type = ''application/json'',
               Request_Body =
                 JObject [(''resourceLogs'', JArray [JObject
                   [(''resource'', JObject [(''attributes'', JArray
                       [JObject [(''key'', JString ''service.name''),
                                 (''value'', JObject [(''stringValue'', JString ''my-go-app'')])],
                        JObject [(''key'', JString ''service.version''),
                                 (''value'', JObject [(''stringValue'', JString ''1.0.0'')])],
                        JObject [(''key'', JString ''telemetry.sdk.language''),
                                 (''value'', JObject [(''stringValue'', JString ''go'')])]])]),
                    (''scope_logs'', JArray [JObject
                       ([(''scope'', JObject [(''name'', JString ''custom-logger''),
                                              (''version'', JString ''1.0'')])]
                        @ (if records = [] then []
                           else [(''log_records'',
                                  JArray (map marshal_LogRecord records))]))])]])]\<rparr>]
        else [])
   \<and> marshal_LogRecord r
       = JObject
           ([(''timeUnixNano'', JNumber (uint (TimeUnixNano r))),
             (''severityText'', JString (utf8_coerce (SeverityText r))),
             (''severityNumber'', JNumber (SeverityNumber r)),
             (''body'', marshal_AttributeValue (Body r))]
            @ (if Attributes r = [] then []
               else [(''attributes'', JArray (map marshal_KeyValue (Attributes r)))]))
   \<and> marshal_KeyValue kv
       = JObject [(''key'', JString (utf8_coerce (Key kv))),
                  (''value'', marshal_AttributeValue (Value kv))]
   \<and> member_names (marshal_AttributeValue v)
       = (if StringValue v = None then [] else [''stringValue''])
         @ (if BoolValue v = None then [] else [''boolValue''])
         @ (if IntValue v = None then [] else [''intValue''])
         @ (if DoubleValue v = None then [] else [''doubleValue''])
         @ (if ArrayValue v = None then [] else [''arrayValue''])
         @ (if KvlistValue v = None then [] else [''kvlistValue''])
         @ (if BytesValue v = [] then [] else [''bytesValue''])
   \<and> JNull \<notin> snd ` set (members (marshal_AttributeValue v))
   \<and> member_names (marshal_ScopeLogs sl)
       = [''scope''] @ (if LogRecords sl = [] then [] else [''log_records''])
   \<and> member_names (marshal_ResourceLogs rl)
       = [''resource''] @ (if ResourceLogs_ScopeLogs rl = [] then [] else [''scope_logs''])"
proof -
  have "marshal_LogRecord r
       = JObject
           ([(''timeUnixNano'', JNumber (uint (TimeUnixNano r))),
             (''severityText'', JString (utf8_coerce (SeverityText r))),
             (''severityNumber'', JNumber (SeverityNumber r)),
             (''body'', marshal_AttributeValue (Body r))]
            @ (if Attributes r = [] then []
               else [(''attributes'', JArray (map marshal_KeyValue (Attributes r)))]))"
    by (simp add: marshal_LogRecord_def marshal_string_def omitempty_slice_def)
  moreover have "marshal_KeyValue kv
       = JObject [(''key'', JString (utf8_coerce (Key kv))),
                  (''value'', marshal_AttributeValue (Value kv))]"
    by (cases kv) (simp add: marshal_string_def)
  moreover have "member_names (marshal_ScopeLogs sl)
       = [''scope''] @ (if LogRecords sl = [] then [] else [''log_records''])"
    by (simp add: marshal_ScopeLogs_def member_names_def members_def omitempty_slice_def)
  moreover have "member_names (marshal_ResourceLogs rl)
       = [''resource''] @ (if ResourceLogs_ScopeLogs rl = [] then [] else [''scope_logs''])"
    by (simp add: marshal_ResourceLogs_def member_names_def members_def omitempty_slice_def)
  ultimately show ?thesis
    unfolding requested_sendBatch envelope_sendBatch_payload
    using member_names_AttributeValue [of v] no_null_member_AttributeValue [of v]
    by simp
qed

theorem request_body_members_witness:
  "requested (sendBatch (collector_answering 200) example_sender [example_record])
     = [\<lparr>Method = ''POST'', URL = ''http://localhost:4318/v1/logs'',
         Content_Type = ''application/json'',
         Request_Body =
           JObject [(''resourceLogs'', JArray [JObject
             [(''resource'', JObject [(''attributes'', JArray
                 [JObject [(''key'', JString ''service.name''),
                           (''value'', JObject [(''stringValue'', JString ''my-go-app'')])],
                  JObject [(''key'', JString ''service.version''),
                           (''value'', JObject [(''stringValue'', JString ''1.0.0'')])],
                  JObject [(''key'', JString ''telemetry.sdk.language''),
                           (''value'', JObject [(''stringValue'', JString ''go'')])]])]),
              (''scope_logs'', JArray [JObject
                 [(''scope'', JObject [(''name'', JString ''custom-logger''),
                                        (''version'', JString ''1.0'')]),
                  (''log_records'', JArray
                     [JObject
                        [(''timeUnixNano'', JNumber 1700000000000000000),
                         (''severityText'', JString ''INFO''),
                         (''severityNumber'', JNumber 9),
                         (''body'', JObject
                            [(''stringValue'', JString ''Application started'')])]])]])]])]\<rparr>]
   \<and> requested (sendBatch (collector_answering 200) example_sender [nan_record]) = []
   \<and> requested (sendBatch (collector_answering 200) newline_sender [example_record]) = []
   \<and> member_names (marshal_AttributeValue (Body example_record)) = [''stringValue'']"
proof -
  have accepted: "supported_LogRecord example_record" "shallow_LogRecord example_record"
    by (simp add: example_record_def supported_LogRecord_def Log_entry_def)
       (simp add: example_record_def shallow_Log_entry)
  have refused: "\<not> supported_LogRecord nan_record"
    by (simp add: nan_record_def Log_entry_def supported_LogRecord_def float64_is_finite_def
          float64_exponent_def)
  have url: "NewRequest_error (collector_answering 200) ''http://localhost:4318/v1/logs'' = None"
    "NewRequest_error (collector_answering 200) (endpoint newline_sender @ ''/v1/logs'') \<noteq> None"
    by (simp_all add: collector_answering_def example_sender_def newline_sender_def
          NewLogSender_def control_character_error_def)
  have ep: "endpoint example_sender @ ''/v1/logs'' = ''http://localhost:4318/v1/logs''"
    by (simp add: example_sender_def NewLogSender_def)
  have body: "Body example_record
      = AttributeValue (Some ''Application started'') None None None None None []"
    "Attributes example_record = []" "SeverityText example_record = ''INFO''"
    "SeverityNumber example_record = 9" "uint (TimeUnixNano example_record) = 1700000000000000000"
    by (simp_all add: example_record_def Log_entry_def uint64_of_int64_def)
  have ascii: "utf8_coerce ''INFO'' = ''INFO''"
    "utf8_coerce ''Application started'' = ''Application started''"
    by (simp_all add: utf8_coerce_def)
  from request_body_members
    [of "collector_answering 200" example_sender "[example_record]" example_record
        "KeyValue ''k'' (Body example_record)" "Body example_record"
        "\<lparr>ScopeLogs_Scope = \<lparr>Name = [], Version = []\<rparr>, LogRecords = []\<rparr>"
        "\<lparr>ResourceLogs_Resource = \<lparr>Resource_Attributes = None\<rparr>, ResourceLogs_ScopeLogs = []\<rparr>"]
    request_body_members
    [of "collector_answering 200" example_sender "[nan_record]" example_record
        "KeyValue ''k'' (Body example_record)" "Body example_record"
        "\<lparr>ScopeLogs_Scope = \<lparr>Name = [], Version = []\<rparr>, LogRecords = []\<rparr>"
        "\<lparr>ResourceLogs_Resource = \<lparr>Resource_Attributes = None\<rparr>, ResourceLogs_ScopeLogs = []\<rparr>"]
    request_body_members
    [of "collector_answering 200" newline_sender "[example_record]" example_record
        "KeyValue ''k'' (Body example_record)" "Body example_record"
        "\<lparr>ScopeLogs_Scope = \<lparr>Name = [], Version = []\<rparr>, LogRecords = []\<rparr>"
        "\<lparr>ResourceLogs_Resource = \<lparr>Resource_Attributes = None\<rparr>, ResourceLogs_ScopeLogs = []\<rparr>"]
  show ?thesis
    by (simp add: accepted refused url ep body ascii omitempty_ptr_def omitempty_slice_def
          marshal_string_def)
qed

section \<open>The batch assembler\<close>

lemma run_append:
  "run (xs @ ys) s = (case run xs s of None \<Rightarrow> None | Some s' \<Rightarrow> run ys s')"
  by (induction xs arbitrary: s) (auto split: option.splits)

lemma run_snoc:
  "run (es @ [e]) s = (case run es s of None \<Rightarrow> None | Some s' \<Rightarrow> step e s')"
  by (simp add: run_append split: option.splits)

lemma enqueued_append: "enqueued (xs @ ys) = enqueued xs @ enqueued ys"
  by (induction xs rule: enqueued.induct) simp_all

lemma receive_transports_append:
  "receive_transports (xs @ ys) = receive_transports xs @ receive_transports ys"
  by (induction xs rule: receive_transports.induct) simp_all

lemma length_receive_transports: "length (receive_transports es) = receives es"
  by (induction es rule: receive_transports.induct) (simp_all add: receives_def)

lemma shallow_enqueued: "list_all shallow_LogRecord (enqueued es)"
  by (induction es rule: enqueued.induct) (simp_all add: shallow_Log_entry)

lemma run_idle_ticks: "batch s = [] \<Longrightarrow> run (map Tick trs) s = Some s"
  by (induction trs) (simp_all add: processQueue_tick_def)

lemma assembled_Start: "Start (NewLogSender ep 10) = assembled ep [] []"
  by (simp add: assembled_def Start_def NewLogSender_def)

lemma assembled_Log:
  assumes "length trs \<le> length rs" and "length rs < 1000"
  shows "Log now severityText severityNumber message attrs (assembled ep rs trs)
           = assembled ep (rs @ [Log_entry now severityText severityNumber message attrs]) trs"
  using assms by (simp add: assembled_def Log_def Let_def logQueue_capacity_def)

lemma assembled_receive:
  assumes short: "length rs < 20"
    and rc: "processQueue_receive tr (assembled ep rs trs) = Some s'"
    and le: "length trs \<le> length rs"
  shows "s' = assembled ep rs (trs @ [tr]) \<and> length (trs @ [tr]) \<le> length rs"
proof -
  let ?k = "length trs"
  have q: "logQueue (sender (assembled ep rs trs)) = drop ?k rs"
    by (simp add: assembled_def)
  from rc q have "drop ?k rs \<noteq> []"
    by (auto simp: processQueue_receive_def)
  then have lt: "?k < length rs" by simp
  then have dr: "drop ?k rs = rs ! ?k # drop (Suc ?k) rs"
    by (simp add: Cons_nth_drop_Suc)
  have tk: "take (Suc ?k) rs = take ?k rs @ [rs ! ?k]"
    using lt by (simp add: take_Suc_conv_app_nth)
  consider (few) "Suc ?k < 10" | (full) "?k = 9" | (more) "10 \<le> ?k" by linarith
  then have "s' = assembled ep rs (trs @ [tr])"
  proof cases
    case few
    with rc dr tk lt show ?thesis
      by (simp add: processQueue_receive_def assembled_def Let_def)
  next
    case full
    with rc dr tk lt show ?thesis
      by (simp add: processQueue_receive_def assembled_def Let_def flush_def
            sendBatch_endpoint [of tr ep 10 _ _ 10] nth_append min_def)
  next
    case more
    then have "drop 10 (take (Suc ?k) rs) = drop 10 (take ?k rs) @ [rs ! ?k]"
      using tk lt by simp
    with more rc dr lt short show ?thesis
      by (simp add: processQueue_receive_def assembled_def Let_def nth_append min_def)
  qed
  with lt show ?thesis by simp
qed

lemma tick_free_run:
  assumes "run es (Start (NewLogSender ep 10)) = Some s"
    and "ticks es = 0"
    and "length (enqueued es) < 20"
  shows "s = assembled ep (enqueued es) (receive_transports es)
         \<and> receives es \<le> length (enqueued es)"
  using assms
proof (induction es arbitrary: s rule: rev_induct)
  case Nil
  then show ?case by (simp add: receives_def assembled_Start)
next
  case (snoc e es)
  from snoc.prems(1) obtain s0 where r0: "run es (Start (NewLogSender ep 10)) = Some s0"
    and st: "step e s0 = Some s"
    by (auto simp: run_snoc split: option.splits)
  from snoc.prems have "ticks es = 0" and len: "length (enqueued es) < 20"
    by (simp_all add: enqueued_append ticks_def)
  with snoc.IH r0 have inv: "s0 = assembled ep (enqueued es) (receive_transports es)"
    and le: "length (receive_transports es) \<le> length (enqueued es)"
    by (simp_all add: length_receive_transports)
  show ?case
  proof (cases e)
    case (Call_Log now severityText severityNumber message attrs)
    with st have "s = Log now severityText severityNumber message attrs s0" by simp
    with inv le len Call_Log show ?thesis
      using length_receive_transports [of es]
      by (simp add: enqueued_append receive_transports_append assembled_Log receives_def)
  next
    case (Receive tr)
    from st Receive inv
    have "processQueue_receive tr (assembled ep (enqueued es) (receive_transports es)) = Some s"
      by simp
    from assembled_receive [OF len this le] Receive show ?thesis
      using length_receive_transports [of "es @ [e]"]
      by (simp add: enqueued_append receive_transports_append)
  next
    case (Tick tr)
    with snoc.prems(2) show ?thesis by (simp add: ticks_def)
  qed
qed

lemma example_call_timestamp:
  "TimeUnixNano (Log_entry i ''INFO'' 9 ''Application started'' None) = i"
  by (simp add: Log_entry_def uint64_of_int64_def)

lemma supported_example_entry:
  "supported_LogRecord (Log_entry i ''INFO'' 9 ''Application started'' None)"
  by (simp add: Log_entry_def supported_LogRecord_def)

lemma request_bodies_collector_answering:
  assumes "list_all supported_LogRecord records" and "list_all shallow_LogRecord records"
    and "control_character_error (endpoint ls @ ''/v1/logs'') = None"
  shows "map Request_Body (requested (sendBatch (collector_answering status) ls records))
           = [envelope (sendBatch_payload records)]"
  by (simp add: sendBatch_collector_answering [OF assms])

lemma supported_example_entries:
  "list_all supported_LogRecord (map (\<lambda>i. Log_entry i ''INFO'' 9 ''Application started'' None) is)"
  by (induction "is") (simp_all add: Log_entry_def supported_LogRecord_def)

lemma shallow_example_entries:
  "list_all shallow_LogRecord (map (\<lambda>i. Log_entry i ''INFO'' 9 ''Application started'' None) is)"
  by (induction "is") (simp_all add: shallow_Log_entry)

text \<open>
  C1, as stated, fails: a record is enqueued by \<open>Log\<close> and reaches the batch only
  when the worker receives it, and a tick can come between the two. In the run below no
  tick comes before the 15th enqueue; the worker has received three of the 15 records
  when it takes the tick, and \<open>sendBatch\<close> is called three times: by that tick with
  records 1 to 3, by the size check with records 4 to 13, and by the next tick with
  records 14 and 15. Three requests are made, one with each of these batches.
\<close>

theorem tick_before_fifteenth_receive_counterexample:
  "ticks (take 15 racing_calls) = 0
   \<and> length (enqueued (take 15 racing_calls)) = 15
   \<and> map_option flushes (run racing_calls (Start (NewLogSender ''http://localhost:4318'' 10)))
       = Some [(Ticker, [1, 2, 3]),
               (Batch_full, [4, 5, 6, 7, 8, 9, 10, 11, 12, 13]),
               (Ticker, [14, 15])]
   \<and> map_option (\<lambda>s. map Request_Body (requests s))
        (run racing_calls (Start (NewLogSender ''http://localhost:4318'' 10)))
       = Some [envelope (sendBatch_payload
                 [Log_entry 1 ''INFO'' 9 ''Application started'' None,
                  Log_entry 2 ''INFO'' 9 ''Application started'' None,
                  Log_entry 3 ''INFO'' 9 ''Application started'' None]),
               envelope (sendBatch_payload
                 [Log_entry 4 ''INFO'' 9 ''Application started'' None,
                  Log_entry 5 ''INFO'' 9 ''Application started'' None,
                  Log_entry 6 ''INFO'' 9 ''Application started'' None,
                  Log_entry 7 ''INFO'' 9 ''Application started'' None,
                  Log_entry 8 ''INFO'' 9 ''Application started'' None,
                  Log_entry 9 ''INFO'' 9 ''Application started'' None,
                  Log_entry 10 ''INFO'' 9 ''Application started'' None,
                  Log_entry 11 ''INFO'' 9 ''Application started'' None,
                  Log_entry 12 ''INFO'' 9 ''Application started'' None,
                  Log_entry 13 ''INFO'' 9 ''Application started'' None]),
               envelope (sendBatch_payload
                 [Log_entry 14 ''INFO'' 9 ''Application started'' None,
                  Log_entry 15 ''INFO'' 9 ''Application started'' None])]"
proof -
  have three: "replicate 3 e = [e, e, e]" for e :: event
    by (simp add: eval_nat_numeral)
  have twelve: "replicate 12 e = [e, e, e, e, e, e, e, e, e, e, e, e]" for e :: event
    by (simp add: eval_nat_numeral)
  have "ticks (take 15 racing_calls) = 0" "length (enqueued (take 15 racing_calls)) = 15"
    by (simp_all add: racing_calls_def ticks_def example_call_def)
  moreover
  have "map_option flushes (run racing_calls (Start (NewLogSender ''http://localhost:4318'' 10)))
       = Some [(Ticker, [1, 2, 3]),
               (Batch_full, [4, 5, 6, 7, 8, 9, 10, 11, 12, 13]),
               (Ticker, [14, 15])]"
    by (simp add: racing_calls_def three twelve example_call_def Start_def NewLogSender_def
          Log_def Let_def logQueue_capacity_def processQueue_receive_def processQueue_tick_def
          flush_def flushes_def example_call_timestamp)
  moreover
  have "map_option (\<lambda>s. map Request_Body (requests s))
        (run racing_calls (Start (NewLogSender ''http://localhost:4318'' 10)))
       = Some [envelope (sendBatch_payload
                 [Log_entry 1 ''INFO'' 9 ''Application started'' None,
                  Log_entry 2 ''INFO'' 9 ''Application started'' None,
                  Log_entry 3 ''INFO'' 9 ''Application started'' None]),
               envelope (sendBatch_payload
                 [Log_entry 4 ''INFO'' 9 ''Application started'' None,
                  Log_entry 5 ''INFO'' 9 ''Application started'' None,
                  Log_entry 6 ''INFO'' 9 ''Application started'' None,
                  Log_entry 7 ''INFO'' 9 ''Application started'' None,
                  Log_entry 8 ''INFO'' 9 ''Application started'' None,
                  Log_entry 9 ''INFO'' 9 ''Application started'' None,
                  Log_entry 10 ''INFO'' 9 ''Application started'' None,
                  Log_entry 11 ''INFO'' 9 ''Application started'' None,
                  Log_entry 12 ''INFO'' 9 ''Application started'' None,
                  Log_entry 13 ''INFO'' 9 ''Application started'' None]),
               envelope (sendBatch_payload
                 [Log_entry 14 ''INFO'' 9 ''Application started'' None,
                  Log_entry 15 ''INFO'' 9 ''Application started'' None])]"
    by (simp add: racing_calls_def three twelve example_call_def Start_def NewLogSender_def
          Log_def Let_def logQueue_capacity_def processQueue_receive_def processQueue_tick_def
          flush_def request_bodies_collector_answering supported_example_entry
          shallow_Log_entry localhost_url_accepted)
  ultimately show ?thesis by simp
qed

text \<open>
  C1, amended: take any run from the start of a sender with batch size 10 in which
  \<open>Log\<close> is called 15 times and the worker receives all 15 records, the calls and
  the receives interleaved in any way, before it takes a tick. At the end of that run
  \<open>sendBatch\<close> has been called once, at the tenth receive, from the size check, with
  the first ten records in the order they were enqueued; records 11 to 15 are in the
  batch and the channel is empty. The next tick calls it a second time, with records 11
  to 15 in that order, and empties the batch; further ticks change nothing. What the
  program has logged and requested is what these two calls logged and requested, and
  nothing else: when every double of the records is finite and the request can be
  built, one POST with the envelope of records 1 to 10 and then one with the envelope
  of records 11 to 15.
\<close>

theorem fifteen_records_two_flushes:
  assumes "run es (Start (NewLogSender ep 10)) = Some s"
    and "ticks es = 0"
    and "length (enqueued es) = 15"
    and "receives es = 15"
  shows "s = \<lparr>sender = \<lparr>endpoint = ep, batchSize = 10, logQueue = []\<rparr>,
              batch = drop 10 (enqueued es),
              log_output =
                logged (sendBatch (receive_transports es ! 9) (NewLogSender ep 10)
                          (take 10 (enqueued es))),
              requests =
                requested (sendBatch (receive_transports es ! 9) (NewLogSender ep 10)
                             (take 10 (enqueued es))),
              sendBatch_calls = [(Batch_full, take 10 (enqueued es))]\<rparr>
         \<and> run (es @ Tick tr # map Tick trs) (Start (NewLogSender ep 10))
             = Some \<lparr>sender = \<lparr>endpoint = ep, batchSize = 10, logQueue = []\<rparr>,
                     batch = [],
                     log_output =
                       logged (sendBatch (receive_transports es ! 9) (NewLogSender ep 10)
                                 (take 10 (enqueued es)))
                       @ logged (sendBatch tr (NewLogSender ep 10) (drop 10 (enqueued es))),
                     requests =
                       requested (sendBatch (receive_transports es ! 9) (NewLogSender ep 10)
                                    (take 10 (enqueued es)))
                       @ requested (sendBatch tr (NewLogSender ep 10) (drop 10 (enqueued es))),
                     sendBatch_calls =
                       [(Batch_full, take 10 (enqueued es)),
                        (Ticker, drop 10 (enqueued es))]\<rparr>
         \<and> (list_all supported_LogRecord (enqueued es)
              \<and> NewRequest_error (receive_transports es ! 9) (ep @ ''/v1/logs'') = None
              \<and> NewRequest_error tr (ep @ ''/v1/logs'') = None \<longrightarrow>
              map_option requests (run (es @ Tick tr # map Tick trs) (Start (NewLogSender ep 10)))
                = Some [\<lparr>Method = ''POST'', URL = ep @ ''/v1/logs'',
                         Content_Type = ''application/json'',
                         Request_Body = envelope (sendBatch_payload (take 10 (enqueued es)))\<rparr>,
                        \<lparr>Method = ''POST'', URL = ep @ ''/v1/logs'',
                         Content_Type = ''application/json'',
                         Request_Body = envelope (sendBatch_payload (drop 10 (enqueued es)))\<rparr>])"
proof -
  let ?first = "sendBatch (receive_transports es ! 9) (NewLogSender ep 10) (take 10 (enqueued es))"
  let ?second = "sendBatch tr (NewLogSender ep 10) (drop 10 (enqueued es))"
  let ?s = "\<lparr>sender = \<lparr>endpoint = ep, batchSize = 10, logQueue = []\<rparr>,
             batch = drop 10 (enqueued es),
             log_output = logged ?first, requests = requested ?first,
             sendBatch_calls = [(Batch_full, take 10 (enqueued es))]\<rparr>"
  let ?t = "\<lparr>sender = \<lparr>endpoint = ep, batchSize = 10, logQueue = []\<rparr>,
             batch = [],
             log_output = logged ?first @ logged ?second,
             requests = requested ?first @ requested ?second,
             sendBatch_calls = [(Batch_full, take 10 (enqueued es)),
                                (Ticker, drop 10 (enqueued es))]\<rparr>"
  from assms have "s = assembled ep (enqueued es) (receive_transports es)"
    using tick_free_run [of es ep s] by simp
  with assms(3,4) have s: "s = ?s"
    by (simp add: assembled_def length_receive_transports)
  from assms(3) have "drop 10 (enqueued es) \<noteq> []" by simp
  then have tick: "processQueue_tick tr ?s = ?t"
    by (simp add: processQueue_tick_def flush_def Let_def
          sendBatch_endpoint [of tr ep 10 _ _ 10])
  have "run (es @ Tick tr # map Tick trs) (Start (NewLogSender ep 10)) = Some ?t"
    using assms(1) by (simp add: run_append s tick run_idle_ticks)
  moreover
  have "list_all shallow_LogRecord (take 10 (enqueued es))"
    "list_all shallow_LogRecord (drop 10 (enqueued es))"
    using shallow_enqueued [of es]
    by (auto simp: list_all_iff dest: in_set_takeD in_set_dropD)
  moreover
  have "list_all supported_LogRecord (take 10 (enqueued es))
      \<and> list_all supported_LogRecord (drop 10 (enqueued es))"
    if "list_all supported_LogRecord (enqueued es)"
    using that by (auto simp: list_all_iff dest: in_set_takeD in_set_dropD)
  ultimately show ?thesis
    using s by (auto simp: requested_sendBatch NewLogSender_def)
qed

theorem fifteen_records_two_flushes_witness:
  "ticks fifteen_calls = 0 \<and> length (enqueued fifteen_calls) = 15 \<and> receives fifteen_calls = 15
   \<and> run fifteen_calls (Start (NewLogSender ''http://localhost:4318'' 10)) \<noteq> None
   \<and> run (fifteen_calls @ [Tick (collector_answering 200)])
        (Start (NewLogSender ''http://localhost:4318'' 10))
       = Some
          \<lparr>sender = \<lparr>endpoint = ''http://localhost:4318'', batchSize = 10, logQueue = []\<rparr>,
           batch = [],
           log_output = [Logs_successfully_sent, Logs_successfully_sent],
           requests =
             [\<lparr>Method = ''POST'', URL = ''http://localhost:4318/v1/logs'',
               Content_Type = ''application/json'',
               Request_Body = envelope (sendBatch_payload
                 (map (\<lambda>i. Log_entry i ''INFO'' 9 ''Application started'' None)
                    [1, 2, 3, 4, 5, 6, 7, 8, 9, 10]))\<rparr>,
              \<lparr>Method = ''POST'', URL = ''http://localhost:4318/v1/logs'',
               Content_Type = ''application/json'',
               Request_Body = envelope (sendBatch_payload
                 (map (\<lambda>i. Log_entry i ''INFO'' 9 ''Application started'' None)
                    [11, 12, 13, 14, 15]))\<rparr>],
           sendBatch_calls =
             [(Batch_full, map (\<lambda>i. Log_entry i ''INFO'' 9 ''Application started'' None)
                             [1, 2, 3, 4, 5, 6, 7, 8, 9, 10]),
              (Ticker, map (\<lambda>i. Log_entry i ''INFO'' 9 ''Application started'' None)
                         [11, 12, 13, 14, 15])]\<rparr>"
proof -
  let ?start = "Start (NewLogSender ''http://localhost:4318'' 10)"
  let ?entry = "\<lambda>i. Log_entry i ''INFO'' 9 ''Application started'' None"
  let ?ls = "NewLogSender ''http://localhost:4318'' 10"
  have unfolded: "replicate 15 e = [e, e, e, e, e, e, e, e, e, e, e, e, e, e, e]" for e :: event
    by (simp add: eval_nat_numeral)
  have events: "ticks fifteen_calls = 0" "receives fifteen_calls = 15"
    by (simp_all add: fifteen_calls_def ticks_def receives_def example_call_def)
  have records: "enqueued fifteen_calls
      = map ?entry [1, 2, 3, 4, 5, 6, 7, 8, 9, 10, 11, 12, 13, 14, 15]"
    by (simp add: fifteen_calls_def example_call_def unfolded)
  have tenth: "receive_transports fifteen_calls ! 9 = collector_answering 200"
    by (simp add: fifteen_calls_def example_call_def unfolded)
  have url: "control_character_error (endpoint ?ls @ ''/v1/logs'') = None"
    by (simp add: NewLogSender_def control_character_error_def)
  have sent: "sendBatch (collector_answering 200) ?ls (map ?entry is)
      = \<lparr>logged = [Logs_successfully_sent],
         requested = [\<lparr>Method = ''POST'', URL = ''http://localhost:4318/v1/logs'',
                       Content_Type = ''application/json'',
                       Request_Body = envelope (sendBatch_payload (map ?entry is))\<rparr>],
         outcome = Delivered\<rparr>" for "is"
    using sendBatch_collector_answering
      [where status = 200 and ls = ?ls and records = "map ?entry is",
       OF supported_example_entries shallow_example_entries url]
    by (simp add: NewLogSender_def)
  have "run fifteen_calls ?start \<noteq> None"
    by (simp add: fifteen_calls_def example_call_def unfolded Start_def NewLogSender_def Log_def Let_def
          logQueue_capacity_def processQueue_receive_def flush_def)
  then obtain s where s: "run fifteen_calls ?start = Some s"
    by blast
  have taken: "take 10 (map ?entry [1, 2, 3, 4, 5, 6, 7, 8, 9, 10, 11, 12, 13, 14, 15])
      = map ?entry [1, 2, 3, 4, 5, 6, 7, 8, 9, 10]"
    "drop 10 (map ?entry [1, 2, 3, 4, 5, 6, 7, 8, 9, 10, 11, 12, 13, 14, 15])
      = map ?entry [11, 12, 13, 14, 15]"
    by simp_all
  from fifteen_records_two_flushes [OF s events(1) _ events(2), of "collector_answering 200" "[]"]
  have "run (fifteen_calls @ [Tick (collector_answering 200)]) ?start
      = Some \<lparr>sender = \<lparr>endpoint = ''http://localhost:4318'', batchSize = 10, logQueue = []\<rparr>,
           batch = [],
           log_output =
             logged (sendBatch (collector_answering 200) ?ls
                       (map ?entry [1, 2, 3, 4, 5, 6, 7, 8, 9, 10]))
             @ logged (sendBatch (collector_answering 200) ?ls (map ?entry [11, 12, 13, 14, 15])),
           requests =
             requested (sendBatch (collector_answering 200) ?ls
                       (map ?entry [1, 2, 3, 4, 5, 6, 7, 8, 9, 10]))
             @ requested (sendBatch (collector_answering 200) ?ls
                       (map ?entry [11, 12, 13, 14, 15])),
           sendBatch_calls =
             [(Batch_full, map ?entry [1, 2, 3, 4, 5, 6, 7, 8, 9, 10]),
              (Ticker, map ?entry [11, 12, 13, 14, 15])]\<rparr>"
    unfolding records tenth taken by simp
  then show ?thesis
    unfolding sent using s events records by simp
qed

text \<open>
  C6, as stated, fails, by the race of C1: the records that are pending when the timer
  fires are not all in the accumulator. In the run below five records are enqueued; the
  worker has received three of them when it takes the tick, and that tick's flush holds
  records 1 to 3 only, records 4 and 5 still being in the channel. They go out with the
  next tick: two flushes, neither of which holds all five.
\<close>

theorem tick_before_fifth_receive_counterexample:
  "length (enqueued five_racing_calls) = 5
   \<and> map_option flushes (run (take 8 five_racing_calls)
        (Start (NewLogSender ''http://localhost:4318'' 10))) = Some []
   \<and> map_option flushes (run (take 9 five_racing_calls)
        (Start (NewLogSender ''http://localhost:4318'' 10))) = Some [(Ticker, [1, 2, 3])]
   \<and> map_option (\<lambda>s. map TimeUnixNano (logQueue (sender s)))
        (run (take 9 five_racing_calls) (Start (NewLogSender ''http://localhost:4318'' 10)))
       = Some [4, 5]
   \<and> map_option flushes (run five_racing_calls
        (Start (NewLogSender ''http://localhost:4318'' 10)))
       = Some [(Ticker, [1, 2, 3]), (Ticker, [4, 5])]
   \<and> map_option (\<lambda>s. map Request_Body (requests s))
        (run five_racing_calls (Start (NewLogSender ''http://localhost:4318'' 10)))
       = Some [envelope (sendBatch_payload
                 [Log_entry 1 ''INFO'' 9 ''Application started'' None,
                  Log_entry 2 ''INFO'' 9 ''Application started'' None,
                  Log_entry 3 ''INFO'' 9 ''Application started'' None]),
               envelope (sendBatch_payload
                 [Log_entry 4 ''INFO'' 9 ''Application started'' None,
                  Log_entry 5 ''INFO'' 9 ''Application started'' None])]"
proof -
  let ?start = "Start (NewLogSender ''http://localhost:4318'' 10)"
  have three: "replicate 3 e = [e, e, e]" for e :: event
    by (simp add: eval_nat_numeral)
  have two: "replicate 2 e = [e, e]" for e :: event
    by (simp add: eval_nat_numeral)
  have "length (enqueued five_racing_calls) = 5"
    by (simp add: five_racing_calls_def example_call_def three two)
  moreover have "map_option flushes (run (take 8 five_racing_calls) ?start) = Some []"
    by (simp add: five_racing_calls_def three two example_call_def Start_def NewLogSender_def
          Log_def Let_def logQueue_capacity_def processQueue_receive_def processQueue_tick_def
          flush_def flushes_def example_call_timestamp)
  moreover
  have "map_option flushes (run (take 9 five_racing_calls) ?start) = Some [(Ticker, [1, 2, 3])]"
    by (simp add: five_racing_calls_def three two example_call_def Start_def NewLogSender_def
          Log_def Let_def logQueue_capacity_def processQueue_receive_def processQueue_tick_def
          flush_def flushes_def example_call_timestamp)
  moreover
  have "map_option (\<lambda>s. map TimeUnixNano (logQueue (sender s)))
        (run (take 9 five_racing_calls) ?start) = Some [4, 5]"
    by (simp add: five_racing_calls_def three two example_call_def Start_def NewLogSender_def
          Log_def Let_def logQueue_capacity_def processQueue_receive_def processQueue_tick_def
          flush_def flushes_def example_call_timestamp)
  moreover
  have "map_option flushes (run five_racing_calls ?start)
      = Some [(Ticker, [1, 2, 3]), (Ticker, [4, 5])]"
    by (simp add: five_racing_calls_def three two example_call_def Start_def NewLogSender_def
          Log_def Let_def logQueue_capacity_def processQueue_receive_def processQueue_tick_def
          flush_def flushes_def example_call_timestamp)
  moreover
  have "map_option (\<lambda>s. map Request_Body (requests s)) (run five_racing_calls ?start)
       = Some [envelope (sendBatch_payload
                 [Log_entry 1 ''INFO'' 9 ''Application started'' None,
                  Log_entry 2 ''INFO'' 9 ''Application started'' None,
                  Log_entry 3 ''INFO'' 9 ''Application started'' None]),
               envelope (sendBatch_payload
                 [Log_entry 4 ''INFO'' 9 ''Application started'' None,
                  Log_entry 5 ''INFO'' 9 ''Application started'' None])]"
    by (simp add: five_racing_calls_def three two example_call_def Start_def NewLogSender_def
          Log_def Let_def logQueue_capacity_def processQueue_receive_def processQueue_tick_def
          flush_def request_bodies_collector_answering supported_example_entry
          shallow_Log_entry localhost_url_accepted)
  ultimately show ?thesis by simp
qed

text \<open>
  C6, amended: in a run from the start of a sender with batch size 10 in which fewer
  than ten records are enqueued and the worker has taken no tick, \<open>sendBatch\<close> has not
  been called and nothing was logged or requested; the batch holds, in the order they
  were enqueued, the records the worker has received so far (all the enqueued records
  once it has received them all), and the others are in the channel. A tick on a batch
  that is not empty calls \<open>sendBatch\<close> once, with the batch as it is and with no
  record that is still in the channel, adds what the call logged and requested (the
  one POST with the envelope of the batch, when every double of the batch is finite and
  the request can be built) and empties the batch; a tick on an empty batch changes
  nothing. The last two hold in every state.
\<close>

theorem fewer_than_ten_records_flushed_by_timer:
  assumes "run es (Start (NewLogSender ep 10)) = Some s"
    and "ticks es = 0"
    and "length (enqueued es) < 10"
  shows "s = \<lparr>sender = \<lparr>endpoint = ep, batchSize = 10,
                         logQueue = drop (receives es) (enqueued es)\<rparr>,
              batch = take (receives es) (enqueued es),
              log_output = [], requests = [], sendBatch_calls = []\<rparr>
         \<and> receives es \<le> length (enqueued es)
         \<and> (receives es = length (enqueued es) \<longrightarrow> batch s = enqueued es)
         \<and> (0 < receives es \<longrightarrow>
              run (es @ [Tick tr]) (Start (NewLogSender ep 10))
                = Some \<lparr>sender = \<lparr>endpoint = ep, batchSize = 10,
                                    logQueue = drop (receives es) (enqueued es)\<rparr>,
                        batch = [],
                        log_output =
                          logged (sendBatch tr (NewLogSender ep 10)
                                    (take (receives es) (enqueued es))),
                        requests =
                          requested (sendBatch tr (NewLogSender ep 10)
                                       (take (receives es) (enqueued es))),
                        sendBatch_calls = [(Ticker, take (receives es) (enqueued es))]\<rparr>)
         \<and> (0 < receives es \<and> list_all supported_LogRecord (enqueued es)
              \<and> NewRequest_error tr (ep @ ''/v1/logs'') = None \<longrightarrow>
              map_option requests (run (es @ [Tick tr]) (Start (NewLogSender ep 10)))
                = Some [\<lparr>Method = ''POST'', URL = ep @ ''/v1/logs'',
                         Content_Type = ''application/json'',
                         Request_Body =
                           envelope (sendBatch_payload (take (receives es) (enqueued es)))\<rparr>])
         \<and> (batch t \<noteq> [] \<longrightarrow>
              processQueue_tick tr t
                = t\<lparr>log_output := log_output t @ logged (sendBatch tr (sender t) (batch t)),
                     requests := requests t @ requested (sendBatch tr (sender t) (batch t)),
                     sendBatch_calls := sendBatch_calls t @ [(Ticker, batch t)],
                     batch := []\<rparr>)
         \<and> (batch t = [] \<longrightarrow> processQueue_tick tr t = t)"
proof -
  let ?k = "receives es"
  let ?s = "\<lparr>sender = \<lparr>endpoint = ep, batchSize = 10, logQueue = drop ?k (enqueued es)\<rparr>,
             batch = take ?k (enqueued es),
             log_output = [], requests = [], sendBatch_calls = []\<rparr>"
  let ?r = "sendBatch tr (NewLogSender ep 10) (take ?k (enqueued es))"
  let ?t = "\<lparr>sender = \<lparr>endpoint = ep, batchSize = 10, logQueue = drop ?k (enqueued es)\<rparr>,
             batch = [], log_output = logged ?r, requests = requested ?r,
             sendBatch_calls = [(Ticker, take ?k (enqueued es))]\<rparr>"
  from assms have inv: "s = assembled ep (enqueued es) (receive_transports es)"
    and le: "?k \<le> length (enqueued es)"
    using tick_free_run [of es ep s] by simp_all
  from le assms(3) have "?k < 10" by simp
  with inv have s: "s = ?s"
    by (simp add: assembled_def length_receive_transports)
  have tick: "processQueue_tick tr ?s = ?t" if "0 < ?k"
  proof -
    from that le have "take ?k (enqueued es) \<noteq> []" by auto
    then show ?thesis
      by (simp add: processQueue_tick_def flush_def Let_def
            sendBatch_endpoint [of tr ep 10 _ _ 10])
  qed
  have run: "run (es @ [Tick tr]) (Start (NewLogSender ep 10)) = Some ?t" if "0 < ?k"
    using assms(1) tick [OF that] by (simp add: run_snoc s)
  have shallow: "list_all shallow_LogRecord (take ?k (enqueued es))"
    using shallow_enqueued [of es] by (auto simp: list_all_iff dest: in_set_takeD)
  have supported: "list_all supported_LogRecord (take ?k (enqueued es))"
    if "list_all supported_LogRecord (enqueued es)"
    using that by (auto simp: list_all_iff dest: in_set_takeD)
  have posted: "map_option requests (run (es @ [Tick tr]) (Start (NewLogSender ep 10)))
      = Some [\<lparr>Method = ''POST'', URL = ep @ ''/v1/logs'',
               Content_Type = ''application/json'',
               Request_Body = envelope (sendBatch_payload (take ?k (enqueued es)))\<rparr>]"
    if "0 < ?k" "list_all supported_LogRecord (enqueued es)"
      "NewRequest_error tr (ep @ ''/v1/logs'') = None"
    using that shallow supported run [OF that(1)]
    by (simp add: requested_sendBatch NewLogSender_def)
  have general: "batch t \<noteq> [] \<longrightarrow>
        processQueue_tick tr t
          = t\<lparr>log_output := log_output t @ logged (sendBatch tr (sender t) (batch t)),
               requests := requests t @ requested (sendBatch tr (sender t) (batch t)),
               sendBatch_calls := sendBatch_calls t @ [(Ticker, batch t)],
               batch := []\<rparr>"
    "batch t = [] \<longrightarrow> processQueue_tick tr t = t"
    by (simp_all add: processQueue_tick_def flush_def Let_def)
  from s le have "receives es = length (enqueued es) \<longrightarrow> batch s = enqueued es"
    by simp
  with s le run posted general show ?thesis
    by blast
qed

theorem fewer_than_ten_records_flushed_by_timer_witness:
  "ticks three_calls = 0 \<and> length (enqueued three_calls) < 10 \<and> receives three_calls = 3
   \<and> run three_calls (Start (NewLogSender ''http://localhost:4318'' 10))
       = Some \<lparr>sender = \<lparr>endpoint = ''http://localhost:4318'', batchSize = 10, logQueue = []\<rparr>,
               batch = map (\<lambda>i. Log_entry i ''INFO'' 9 ''Application started'' None) [1, 2, 3],
               log_output = [], requests = [], sendBatch_calls = []\<rparr>
   \<and> run (three_calls @ [Tick (collector_answering 200)])
        (Start (NewLogSender ''http://localhost:4318'' 10))
       = Some
          \<lparr>sender = \<lparr>endpoint = ''http://localhost:4318'', batchSize = 10, logQueue = []\<rparr>,
           batch = [],
           log_output = [Logs_successfully_sent],
           requests =
             [\<lparr>Method = ''POST'', URL = ''http://localhost:4318/v1/logs'',
               Content_Type = ''application/json'',
               Request_Body = envelope (sendBatch_payload
                 (map (\<lambda>i. Log_entry i ''INFO'' 9 ''Application started'' None) [1, 2, 3]))\<rparr>],
           sendBatch_calls =
             [(Ticker, map (\<lambda>i. Log_entry i ''INFO'' 9 ''Application started'' None)
                         [1, 2, 3])]\<rparr>
   \<and> batch (Start example_sender) = []
   \<and> processQueue_tick (collector_answering 200) (Start example_sender) = Start example_sender"
proof -
  let ?start = "Start (NewLogSender ''http://localhost:4318'' 10)"
  let ?entry = "\<lambda>i. Log_entry i ''INFO'' 9 ''Application started'' None"
  let ?ls = "NewLogSender ''http://localhost:4318'' 10"
  have unfolded: "replicate 3 e = [e, e, e]" for e :: event
    by (simp add: eval_nat_numeral)
  have events: "ticks three_calls = 0" "receives three_calls = 3"
    by (simp_all add: three_calls_def ticks_def receives_def example_call_def)
  have records: "enqueued three_calls = map ?entry [1, 2, 3]"
    by (simp add: three_calls_def example_call_def unfolded)
  have url: "control_character_error (endpoint ?ls @ ''/v1/logs'') = None"
    by (simp add: NewLogSender_def control_character_error_def)
  have sent: "sendBatch (collector_answering 200) ?ls (map ?entry is)
      = \<lparr>logged = [Logs_successfully_sent],
         requested = [\<lparr>Method = ''POST'', URL = ''http://localhost:4318/v1/logs'',
                       Content_Type = ''application/json'',
                       Request_Body = envelope (sendBatch_payload (map ?entry is))\<rparr>],
         outcome = Delivered\<rparr>" for "is"
    using sendBatch_collector_answering
      [where status = 200 and ls = ?ls and records = "map ?entry is",
       OF supported_example_entries shallow_example_entries url]
    by (simp add: NewLogSender_def)
  have "run three_calls ?start \<noteq> None"
    by (simp add: three_calls_def example_call_def unfolded Start_def NewLogSender_def Log_def Let_def
          logQueue_capacity_def processQueue_receive_def)
  then obtain s where s: "run three_calls ?start = Some s"
    by blast
  have empty: "batch (Start example_sender) = []"
    by (simp add: Start_def)
  from fewer_than_ten_records_flushed_by_timer
    [OF s events(1), of "collector_answering 200" "Start example_sender"]
  have "s = \<lparr>sender = \<lparr>endpoint = ''http://localhost:4318'', batchSize = 10, logQueue = []\<rparr>,
             batch = map ?entry [1, 2, 3],
             log_output = [], requests = [], sendBatch_calls = []\<rparr>"
    and "run (three_calls @ [Tick (collector_answering 200)]) ?start
      = Some \<lparr>sender = \<lparr>endpoint = ''http://localhost:4318'', batchSize = 10, logQueue = []\<rparr>,
           batch = [],
           log_output = logged (sendBatch (collector_answering 200) ?ls (map ?entry [1, 2, 3])),
           requests = requested (sendBatch (collector_answering 200) ?ls (map ?entry [1, 2, 3])),
           sendBatch_calls = [(Ticker, map ?entry [1, 2, 3])]\<rparr>"
    and "processQueue_tick (collector_answering 200) (Start example_sender) = Start example_sender"
    unfolding records events by (simp_all add: empty)
  then show ?thesis
    unfolding sent using s events records empty by simp
qed

section \<open>Valid UTF-8 is written as it is\<close>

lemma utf8_coerce_from_copy:
  "0 < k \<Longrightarrow> utf8_coerce_from k (c # cs) = c # utf8_coerce_from (k - 1) cs"
  by (cases k) simp_all

lemma utf8_coerce_from_take_drop:
  "k \<le> length s \<Longrightarrow> utf8_coerce_from k s = take k s @ utf8_coerce_from 0 (drop k s)"
proof (induction k arbitrary: s)
  case 0
  then show ?case by simp
next
  case (Suc k)
  then show ?case by (cases s) simp_all
qed

lemma well_formed_rune_width:
  assumes wf: "well_formed_utf8 (b0 # bs)"
  shows "\<exists>w. rune_width (take 4 (b0 # bs)) = Suc w \<and> w \<le> length bs
             \<and> well_formed_utf8 (drop w bs)"
proof -
  consider (one) "b0 \<le> 127" | (two) "194 \<le> b0" "b0 \<le> 223"
    | (three) "224 \<le> b0" "b0 \<le> 239" | (four) "240 \<le> b0" "b0 \<le> 244"
    using wf by (simp split: if_splits)
  then show ?thesis
  proof cases
    case one
    with wf have "rune_width (take 4 (b0 # bs)) = Suc 0 \<and> 0 \<le> length bs
        \<and> well_formed_utf8 (drop 0 bs)"
      by simp
    then show ?thesis by blast
  next
    case two
    with wf obtain b1 rest where bs: "bs = b1 # rest"
      and ok: "UTF8_tail b1" "well_formed_utf8 rest"
      by (cases bs) auto
    from two bs ok have "rune_width (take 4 (b0 # bs)) = Suc 1 \<and> 1 \<le> length bs
        \<and> well_formed_utf8 (drop 1 bs)"
      by (simp add: UTF8_tail_def continuation_byte_def)
    then show ?thesis by blast
  next
    case three
    from three have hi: "\<not> b0 \<le> 127" "\<not> (194 \<le> b0 \<and> b0 \<le> 223)" by simp_all
    from wf hi three obtain b1 b2 rest where bs: "bs = b1 # b2 # rest"
      by (cases bs; cases "tl bs") auto
    from wf hi three bs
    have ok: "(if b0 = 224 then 160 \<le> b1 \<and> b1 \<le> 191
               else if b0 = 237 then 128 \<le> b1 \<and> b1 \<le> 159 else UTF8_tail b1)"
      "UTF8_tail b2" "well_formed_utf8 rest"
      by simp_all
    from ok(1) have b1: "(if b0 = 224 then 160 else 128) \<le> b1"
      "b1 \<le> (if b0 = 237 then 159 else 191)"
      by (auto simp: UTF8_tail_def split: if_splits)
    from hi three b1 ok(2) bs have "rune_width (take 4 (b0 # bs)) = Suc 2"
      by (simp add: UTF8_tail_def continuation_byte_def)
    with bs ok(3) have "rune_width (take 4 (b0 # bs)) = Suc 2 \<and> 2 \<le> length bs
        \<and> well_formed_utf8 (drop 2 bs)"
      by simp
    then show ?thesis by blast
  next
    case four
    from four have hi: "\<not> b0 \<le> 127" "\<not> (194 \<le> b0 \<and> b0 \<le> 223)"
      "\<not> (224 \<le> b0 \<and> b0 \<le> 239)" by simp_all
    from wf hi four obtain b1 b2 b3 rest where bs: "bs = b1 # b2 # b3 # rest"
      by (cases bs; cases "tl bs"; cases "tl (tl bs)") auto
    from wf hi four bs
    have ok: "(if b0 = 240 then 144 \<le> b1 \<and> b1 \<le> 191
               else if b0 = 244 then 128 \<le> b1 \<and> b1 \<le> 143 else UTF8_tail b1)"
      "UTF8_tail b2" "UTF8_tail b3" "well_formed_utf8 rest"
      by simp_all
    from ok(1) have b1: "(if b0 = 240 then 144 else 128) \<le> b1"
      "b1 \<le> (if b0 = 244 then 143 else 191)"
      by (auto simp: UTF8_tail_def split: if_splits)
    from hi four b1 ok(2,3) bs have "rune_width (take 4 (b0 # bs)) = Suc 3"
      by (simp add: UTF8_tail_def continuation_byte_def)
    with bs ok(4) have "rune_width (take 4 (b0 # bs)) = Suc 3 \<and> 3 \<le> length bs
        \<and> well_formed_utf8 (drop 3 bs)"
      by simp
    then show ?thesis by blast
  qed
qed

lemma well_formed_utf8_coerce:
  "well_formed_utf8 (map of_char s) \<Longrightarrow> utf8_coerce_from 0 s = s"
proof (induction "length s" arbitrary: s rule: less_induct)
  case less
  show ?case
  proof (cases s)
    case Nil
    then show ?thesis by simp
  next
    case (Cons c cs)
    with less.prems have "well_formed_utf8 (of_char c # map of_char cs)"
      by (simp only: list.map)
    from well_formed_rune_width [OF this]
    obtain w where w: "rune_width (take 4 (of_char c # map of_char cs)) = Suc w"
      and len: "w \<le> length cs" and rest: "well_formed_utf8 (drop w (map of_char cs))"
      by auto
    from rest have "well_formed_utf8 (map of_char (drop w cs))"
      by (simp add: drop_map)
    moreover have "length (drop w cs) < length s"
      using Cons by simp
    ultimately have "utf8_coerce_from 0 (drop w cs) = drop w cs"
      using less.hyps by blast
    with utf8_coerce_from_take_drop [OF len] have copied: "utf8_coerce_from w cs = cs"
      by (simp only: append_take_drop_id)
    have eq: "map of_char (take 4 (c # cs)) = take 4 (of_char c # map of_char cs)"
      using take_map [of 4 of_char "c # cs", symmetric] by (simp only: list.map)
    have "utf8_coerce_from 0 (c # cs) = c # utf8_coerce_from w cs"
      by (simp only: utf8_coerce_from.simps eq w nat.case)
    with copied Cons show ?thesis
      by (simp only:)
  qed
qed

lemma valid_utf8_coerce: "valid_utf8 s \<Longrightarrow> utf8_coerce s = s"
  by (simp add: valid_utf8_def utf8_coerce_def well_formed_utf8_coerce)

lemma ascii_valid_utf8: "\<forall>c \<in> set s. (of_char c :: nat) < 128 \<Longrightarrow> valid_utf8 s"
  unfolding valid_utf8_def by (induction s) simp_all

lemma utf8_coerce_invalid_byte: "utf8_coerce [char_of (255 :: nat)] = replacement_char"
  by (simp add: utf8_coerce_def)

lemma valid_utf8_replacement_char: "valid_utf8 replacement_char"
  by (simp add: valid_utf8_def replacement_char_def UTF8_tail_def)

lemma valid_utf8_INFO: "valid_utf8 ''INFO''"
  by (simp add: ascii_valid_utf8)

section \<open>The round trip of the envelope\<close>

lemma map_of_omitempty_ptr:
  "map_of (omitempty_ptr k v) k' = (if k' = k then v else None)"
  by (simp add: omitempty_ptr_def split: option.splits)

lemma map_of_omitempty_slice:
  "map_of (omitempty_slice k xs enc) k' = (if k' = k \<and> xs \<noteq> [] then Some (enc xs) else None)"
  by (simp add: omitempty_slice_def)

lemma map_of_omitempty_string:
  "map_of (omitempty_string k s) k'
     = (if k' = k \<and> s \<noteq> [] then Some (marshal_string s) else None)"
  by (simp add: omitempty_string_def)

lemmas map_of_omitempty =
  map_of_omitempty_ptr map_of_omitempty_slice map_of_omitempty_string map_add_def

lemma unmarshal_string_marshal:
  "valid_utf8 s \<Longrightarrow> unmarshal_string (marshal_string s) = Some s"
  by (simp add: unmarshal_string_def marshal_string_def valid_utf8_coerce)

lemma unmarshal_int64_sint: "unmarshal_int64 (JNumber (sint w)) = Some w"
proof -
  have "- (2 ^ 63) \<le> sint w" "sint w < 2 ^ 63"
    using sint_ge [of w] sint_lt [of w] by simp_all
  then show ?thesis by (simp add: unmarshal_int64_def)
qed

lemma unmarshal_uint64_uint: "unmarshal_uint64 (JNumber (uint w)) = Some w"
proof -
  have "uint w < 2 ^ 64"
    using uint_bounded [of w] by simp
  then show ?thesis by (simp add: unmarshal_uint64_def)
qed

lemma those_map_Some:
  "(\<And>x. x \<in> set xs \<Longrightarrow> dec (enc x) = Some x) \<Longrightarrow> those (map (dec \<circ> enc) xs) = Some xs"
  by (induction xs) simp_all

lemma unmarshal_AttributeValue_marshal:
    "text_AttributeValue v \<Longrightarrow> unmarshal_AttributeValue (marshal_AttributeValue v) = Some v"
  and unmarshal_ArrayValue_marshal:
    "text_ArrayValue av \<Longrightarrow> unmarshal_ArrayValue (marshal_ArrayValue av) = Some av"
  and unmarshal_KvlistValue_marshal:
    "text_KvlistValue kvl \<Longrightarrow> unmarshal_KvlistValue (marshal_KvlistValue kvl) = Some kvl"
  and unmarshal_KeyValue_marshal:
    "text_KeyValue kv \<Longrightarrow> unmarshal_KeyValue (marshal_KeyValue kv) = Some kv"
proof (induction v and av and kvl and kv)
  case (AttributeValue s b i d a k y)
  then show ?case
    by (cases s; cases b; cases i; cases d; cases a; cases k)
       (simp_all add: map_of_omitempty unmarshal_string_marshal unmarshal_int64_sint
          unmarshal_bool_def unmarshal_float64_def unmarshal_bytes_def)
next
  case (Mk_ArrayValue vs)
  then show ?case
    by (cases vs) (simp_all add: marshal_slice_def list_all_iff those_map_Some)
next
  case (Mk_KvlistValue kvs)
  then show ?case
    by (cases kvs) (simp_all add: marshal_slice_def list_all_iff those_map_Some)
next
  case (KeyValue k v)
  then show ?case
    by (simp add: unmarshal_string_marshal)
qed

lemma those_KeyValues:
  "list_all text_KeyValue kvs
    \<Longrightarrow> those (map (unmarshal_KeyValue \<circ> marshal_KeyValue) kvs) = Some kvs"
  by (rule those_map_Some) (simp add: list_all_iff unmarshal_KeyValue_marshal)

lemma unmarshal_LogRecord_marshal:
  "text_LogRecord r \<Longrightarrow> unmarshal_LogRecord (marshal_LogRecord r) = Some r"
  by (simp add: unmarshal_LogRecord_def marshal_LogRecord_def member_or_def text_LogRecord_def
        unmarshal_int_def unmarshal_list_def unmarshal_AttributeValue_marshal those_KeyValues
        map_of_omitempty unmarshal_string_marshal unmarshal_uint64_uint)

lemma those_LogRecords:
  "list_all text_LogRecord rs
    \<Longrightarrow> those (map (unmarshal_LogRecord \<circ> marshal_LogRecord) rs) = Some rs"
  by (rule those_map_Some) (simp add: list_all_iff unmarshal_LogRecord_marshal)

lemma unmarshal_Scope_marshal:
  "valid_utf8 (Name sc) \<Longrightarrow> valid_utf8 (Version sc)
    \<Longrightarrow> unmarshal_Scope (marshal_Scope sc) = Some sc"
  by (simp add: unmarshal_Scope_def marshal_Scope_def member_or_def map_of_omitempty
        unmarshal_string_marshal)

lemma unmarshal_Resource_marshal:
  "(case Resource_Attributes r of None \<Rightarrow> True | Some kvs \<Rightarrow> list_all text_KeyValue kvs)
    \<Longrightarrow> unmarshal_Resource (marshal_Resource r) = Some r"
  by (cases "Resource_Attributes r")
     (simp_all add: unmarshal_Resource_def marshal_Resource_def member_or_def
        unmarshal_slice_def marshal_slice_def those_KeyValues)

lemma unmarshal_ScopeLogs_marshal:
  "valid_utf8 (Name (ScopeLogs_Scope sl)) \<Longrightarrow> valid_utf8 (Version (ScopeLogs_Scope sl))
    \<Longrightarrow> list_all text_LogRecord (LogRecords sl)
    \<Longrightarrow> unmarshal_ScopeLogs (marshal_ScopeLogs sl) = Some sl"
  by (simp add: unmarshal_ScopeLogs_def marshal_ScopeLogs_def member_or_def unmarshal_list_def
        unmarshal_Scope_marshal those_LogRecords map_of_omitempty)

lemma text_sendBatch_resource:
  "(case Resource_Attributes sendBatch_resource of
      None \<Rightarrow> True | Some kvs \<Rightarrow> list_all text_KeyValue kvs)"
  by (simp add: sendBatch_resource_def stringPtr_def ascii_valid_utf8)

lemma unmarshal_payload_sendBatch:
  assumes "list_all text_LogRecord records"
  shows "unmarshal_payload (envelope (sendBatch_payload records))
         = Some (sendBatch_payload records)"
  using assms text_sendBatch_resource
  by (simp add: envelope_def unmarshal_payload_def member_or_def unmarshal_list_def
        sendBatch_payload_def
        unmarshal_ResourceLogs_def marshal_ResourceLogs_def unmarshal_Resource_marshal
        unmarshal_ScopeLogs_marshal ascii_valid_utf8 map_of_omitempty)

lemma decoded_records_envelope:
  assumes "list_all text_LogRecord records"
  shows "decoded_records (envelope (sendBatch_payload records)) = Some records"
  using unmarshal_payload_sendBatch [OF assms]
  by (simp add: decoded_records_def sendBatch_payload_def)

lemma round_trip_cases:
  assumes "list_all text_LogRecord records"
  shows "round_trip records
           = (if list_all supported_LogRecord records \<and> list_all shallow_LogRecord records
              then Some records else None)"
proof (cases "json_Marshal (sendBatch_payload records)")
  case (Inl err)
  then have "\<not> (list_all supported_LogRecord records \<and> list_all shallow_LogRecord records)"
    using json_Marshal_refuses [of records] by blast
  with Inl show ?thesis
    by (simp add: round_trip_def)
next
  case (Inr body)
  then have "body = envelope (sendBatch_payload records)"
    and "list_all supported_LogRecord records \<and> list_all shallow_LogRecord records"
    by (simp_all add: json_Marshal_sendBatch_payload)
  with Inr decoded_records_envelope [OF assms] show ?thesis
    by (simp add: round_trip_def)
qed

lemma json_depth_nested_arrays:
  "json_depth (marshal_AttributeValue (nested_arrays n)) = 3 * n + 1"
  by (induction n) (simp_all add: omitempty_ptr_def omitempty_slice_def marshal_slice_def)

lemma supported_nested_arrays: "supported_AttributeValue (nested_arrays n)"
  by (induction n) simp_all

lemma text_nested_arrays: "text_AttributeValue (nested_arrays n)"
  by (induction n) simp_all

lemma shallow_nested_record: "shallow_LogRecord (nested_record n) \<longleftrightarrow> n \<le> 3330"
  by (auto simp: shallow_LogRecord_def nested_record_def marshal_LogRecord_def
        json_depth_nested_arrays omitempty_slice_def marshal_string_def max_nesting_depth_def)

text \<open>
  C8, as stated, fails, in three ways. A batch with a NaN attribute has no envelope:
  \<open>json.Marshal\<close> returns an error. Nor has a batch with a record whose body is
  nested 3331 arrays deep, which takes the envelope beyond the nesting limit of the
  encoder (with 3330 arrays it is within the limit). And a batch whose message is not
  valid UTF-8 comes back changed: the byte 0xFF is written as U+FFFD and is read back
  as the three bytes of that character.
\<close>

theorem round_trip_counterexample:
  "json_Marshal (sendBatch_payload [nan_record]) = Inl UnsupportedValueError
   \<and> round_trip [nan_record] = None
   \<and> json_Marshal (sendBatch_payload [nested_record 3331]) = Inl Exceeded_max_depth
   \<and> round_trip [nested_record 3331] = None
   \<and> round_trip [nested_record 3330] = Some [nested_record 3330]
   \<and> round_trip [invalid_text_record] = Some [Log_entry 1 ''INFO'' 9 replacement_char None]
   \<and> Log_entry 1 ''INFO'' 9 replacement_char None \<noteq> invalid_text_record"
proof -
  let ?replaced = "Log_entry 1 ''INFO'' 9 replacement_char None"
  have "\<not> supported_LogRecord nan_record"
    by (simp add: nan_record_def Log_entry_def supported_LogRecord_def float64_is_finite_def
          float64_exponent_def)
  then have no_nan: "\<not> finite_doubles (envelope (sendBatch_payload [nan_record]))"
    by (simp add: finite_doubles_envelope)
  have "shallow_LogRecord nan_record"
    by (simp add: nan_record_def shallow_Log_entry)
  then have within_limit:
    "json_depth (envelope (sendBatch_payload [nan_record])) \<le> max_nesting_depth"
    by (simp add: json_depth_envelope)
  from no_nan obtain e where e: "first_error 0 (envelope (sendBatch_payload [nan_record])) = Some e"
    using first_error_None [of 0 "envelope (sendBatch_payload [nan_record])"] by auto
  with within_limit have "e \<noteq> Exceeded_max_depth"
    using first_error_depth [of 0 "envelope (sendBatch_payload [nan_record])"] by auto
  with e have "first_error 0 (envelope (sendBatch_payload [nan_record]))
      = Some UnsupportedValueError"
    by (cases e) simp_all
  then have nan: "json_Marshal (sendBatch_payload [nan_record]) = Inl UnsupportedValueError"
    by (simp add: json_Marshal_def)
  have nested: "supported_LogRecord (nested_record n)" "text_LogRecord (nested_record n)" for n
    by (simp_all add: nested_record_def supported_LogRecord_def text_LogRecord_def
          supported_nested_arrays text_nested_arrays valid_utf8_INFO)
  have "\<exists>err. json_Marshal (sendBatch_payload [nested_record 3331]) = Inl err"
    unfolding json_Marshal_refuses by (simp add: shallow_nested_record)
  then obtain err where err: "json_Marshal (sendBatch_payload [nested_record 3331]) = Inl err"
    by blast
  from json_Marshal_Inl [OF err] nested(1) [of 3331]
  have deep: "json_Marshal (sendBatch_payload [nested_record 3331]) = Inl Exceeded_max_depth"
    using err by (simp add: finite_doubles_envelope)
  have within: "round_trip [nested_record 3330] = Some [nested_record 3330]"
    using round_trip_cases [of "[nested_record 3330]"] nested
    by (simp add: shallow_nested_record)
  have supported: "supported_LogRecord invalid_text_record" "supported_LogRecord ?replaced"
    by (simp_all add: invalid_text_record_def Log_entry_def supported_LogRecord_def)
  have valid: "text_LogRecord ?replaced"
    by (simp add: Log_entry_def text_LogRecord_def valid_utf8_replacement_char valid_utf8_INFO)
  have "marshal_LogRecord invalid_text_record = marshal_LogRecord ?replaced"
    using valid_utf8_coerce [OF valid_utf8_replacement_char]
    by (simp add: marshal_LogRecord_def invalid_text_record_def Log_entry_def marshal_string_def
          utf8_coerce_invalid_byte)
  then have "envelope (sendBatch_payload [invalid_text_record])
      = envelope (sendBatch_payload [?replaced])"
    by (simp add: envelope_sendBatch_payload)
  then have "json_Marshal (sendBatch_payload [invalid_text_record])
      = json_Marshal (sendBatch_payload [?replaced])"
    by (simp only: json_Marshal_def)
  then have "round_trip [invalid_text_record] = round_trip [?replaced]"
    by (simp only: round_trip_def)
  also have "\<dots> = Some [?replaced]"
    using round_trip_cases [of "[?replaced]"] supported(2) valid
    by (simp add: shallow_Log_entry)
  finally have changed: "round_trip [invalid_text_record] = Some [?replaced]" .
  have "?replaced \<noteq> invalid_text_record"
    by (simp add: Log_entry_def invalid_text_record_def replacement_char_def)
  with nan deep within changed show ?thesis
    by (simp add: round_trip_def)
qed

text \<open>
  C8, amended: for every batch of records in which every double is finite, every
  string is valid UTF-8, and no record is nested so deep that the envelope exceeds the
  encoder's limit of 10000 nested objects and arrays, encoding the batch into the
  envelope and decoding the envelope gives back the batch: the same records in the same
  order, each with the timestamp, severity text, severity number, body and attributes
  it had. For a batch of valid strings these conditions are necessary too: without
  them there is no envelope. (Decoding is modelled from the spec: the repository has no
  decoder.)
\<close>

theorem envelope_round_trip:
  assumes "list_all supported_LogRecord records"
    and "list_all shallow_LogRecord records"
    and "list_all text_LogRecord records"
  shows "round_trip records = Some records
         \<and> (\<exists>body. json_Marshal (sendBatch_payload records) = Inr body
               \<and> decoded_records body = Some records)"
  using round_trip_cases [OF assms(3)] json_Marshal_accepts [OF assms(1,2)]
    decoded_records_envelope [OF assms(3)] assms(1,2)
  by simp

theorem envelope_round_trip_witness:
  "list_all supported_LogRecord
     [example_record,
      Log_entry 2 ''WARN'' 13 ''Retry attempt''
        (Some [(''retry.count'', GoInt 3), (''enabled'', GoBool True), (''user'', GoString ''john_doe'')])]
   \<and> list_all shallow_LogRecord
     [example_record,
      Log_entry 2 ''WARN'' 13 ''Retry attempt''
        (Some [(''retry.count'', GoInt 3), (''enabled'', GoBool True), (''user'', GoString ''john_doe'')])]
   \<and> list_all text_LogRecord
     [example_record,
      Log_entry 2 ''WARN'' 13 ''Retry attempt''
        (Some [(''retry.count'', GoInt 3), (''enabled'', GoBool True), (''user'', GoString ''john_doe'')])]
   \<and> round_trip
     [example_record,
      Log_entry 2 ''WARN'' 13 ''Retry attempt''
        (Some [(''retry.count'', GoInt 3), (''enabled'', GoBool True), (''user'', GoString ''john_doe'')])]
     = Some
     [example_record,
      Log_entry 2 ''WARN'' 13 ''Retry attempt''
        (Some [(''retry.count'', GoInt 3), (''enabled'', GoBool True), (''user'', GoString ''john_doe'')])]"
proof -
  let ?records = "[example_record,
      Log_entry 2 ''WARN'' 13 ''Retry attempt''
        (Some [(''retry.count'', GoInt 3), (''enabled'', GoBool True), (''user'', GoString ''john_doe'')])]"
  have supported: "list_all supported_LogRecord ?records"
    by (simp add: example_record_def Log_entry_def supported_LogRecord_def)
  have shallow: "list_all shallow_LogRecord ?records"
    by (simp add: example_record_def shallow_Log_entry)
  have valid: "list_all text_LogRecord ?records"
    by (simp add: example_record_def Log_entry_def text_LogRecord_def ascii_valid_utf8)
  from envelope_round_trip [OF supported shallow valid] supported shallow valid
  show ?thesis by simp
qed

end
